theory Spec2Isabelle
  imports Main "HOL-Library.Multiset"
begin

section \<open>JavaScript values\<close>

text \<open>
  The parsed XML tree, the response body and the transformer inputs all have the
  TypeScript type \<open>any\<close>. They are modelled by one datatype of JavaScript values. An
  object is the association list of its own properties, in property order. A function
  (the members that objects and arrays inherit are functions) is kept as the text that
  \<open>String\<close> gives for it.
\<close>

datatype js =
    Undefined
  | Null
  | Bool bool
  | Num int
  | Str string
  | Arr "js list"
  | Obj "(string \<times> js) list"
  | Function string

text \<open>
  An HTTP response as the code reads it: the status, the two headers it looks at
  (\<open>x-csrf-token\<close> and \<open>set-cookie\<close>) and the body.
\<close>

record response =
  rsp_status :: nat
  rsp_csrf_token :: "string option"
  rsp_set_cookie :: "string list option"
  rsp_data :: js

text \<open>
  What a \<open>throw\<close> carries: an \<open>AxiosError\<close> with its message and the response when
  the server answered, a plain \<open>Error\<close>, or a \<open>TypeError\<close> of the runtime.
\<close>

datatype js_error =
    AxiosError string "response option"
  | Error string
  | TypeError string

text \<open>Sequencing of steps that may throw: the first error ends the computation.\<close>

definition then_do :: "'e + 'a \<Rightarrow> ('a \<Rightarrow> 'e + 'b) \<Rightarrow> 'e + 'b" where
  "then_do m f = (case m of Inl e \<Rightarrow> Inl e | Inr a \<Rightarrow> f a)"

text \<open>Truthiness, as \<open>if (x)\<close>, \<open>!x\<close>, \<open>x || y\<close> and \<open>x && y\<close> test it, and the value of \<open>a || b\<close>.\<close>

fun truthy :: "js \<Rightarrow> bool" where
  "truthy Undefined = False"
| "truthy Null = False"
| "truthy (Bool b) = b"
| "truthy (Num n) = (n \<noteq> 0)"
| "truthy (Str s) = (s \<noteq> [])"
| "truthy (Arr xs) = True"
| "truthy (Obj kvs) = True"
| "truthy (Function f) = True"

definition js_or :: "js \<Rightarrow> js \<Rightarrow> js" where
  "js_or a b = (if truthy a then a else b)"

fun nullish :: "js \<Rightarrow> bool" where
  "nullish Undefined = True"
| "nullish Null = True"
| "nullish v = False"

text \<open>\<open>typeof v === 'object'\<close>.\<close>

fun typeof_object :: "js \<Rightarrow> bool" where
  "typeof_object Null = True"
| "typeof_object (Arr xs) = True"
| "typeof_object (Obj kvs) = True"
| "typeof_object v = False"

fun isArray :: "js \<Rightarrow> bool" where
  "isArray (Arr xs) = True"
| "isArray v = False"

subsection \<open>Decimal digits\<close>

definition is_digit :: "char \<Rightarrow> bool" where
  "is_digit c = (c \<in> set ''0123456789'')"

text \<open>The value of a decimal digit: its position in the digit sequence.\<close>

definition digit_val :: "char \<Rightarrow> nat" where
  "digit_val c = length (takeWhile (\<lambda>d. d \<noteq> c) ''0123456789'')"

fun digits_val :: "nat \<Rightarrow> string \<Rightarrow> nat" where
  "digits_val acc [] = acc"
| "digits_val acc (c # cs) = digits_val (10 * acc + digit_val c) cs"

text \<open>
  An array index as a property name: the canonical decimal numeral of a number below
  \<open>2^32 - 1\<close>.
\<close>

definition arr_index :: "string \<Rightarrow> nat option" where
  "arr_index k =
     (if k = [] \<or> \<not> list_all is_digit k then None
      else if hd k = CHR ''0'' \<and> length k > 1 then None
      else if digits_val 0 k < 4294967295 then Some (digits_val 0 k) else None)"

subsection \<open>Property access\<close>

text \<open>The own properties of an object or an array.\<close>

fun has_own :: "string \<Rightarrow> js \<Rightarrow> bool" where
  "has_own k (Obj kvs) = (map_of kvs k \<noteq> None)"
| "has_own k (Arr xs) =
     (k = ''length'' \<or> (case arr_index k of Some i \<Rightarrow> i < length xs | None \<Rightarrow> False))"
| "has_own k v = False"

text \<open>
  \<open>v.name\<close> for a fixed element or attribute name, on a value that is neither \<open>null\<close>
  nor \<open>undefined\<close>: the own property. The fixed names the code reads (\<open>_text\<close>,
  \<open>_attributes\<close>, \<open>OBJECT_NAME\<close>, \<open>abapsource:entry\<close> and so on) are not names of
  inherited members, and strings, numbers, booleans and functions have no property of
  such a name.
\<close>

fun get_prop :: "js \<Rightarrow> string \<Rightarrow> js" where
  "get_prop (Obj kvs) k = (case map_of kvs k of Some v \<Rightarrow> v | None \<Rightarrow> Undefined)"
| "get_prop (Arr xs) k =
     (if k = ''length'' then Num (int (length xs))
      else (case arr_index k of
              Some i \<Rightarrow> (if i < length xs then xs ! i else Undefined)
            | None \<Rightarrow> Undefined))"
| "get_prop v k = Undefined"

text \<open>\<open>v.key\<close>: a TypeError on \<open>null\<close> and \<open>undefined\<close>.\<close>

definition get_strict :: "js \<Rightarrow> string \<Rightarrow> js_error + js" where
  "get_strict v k =
     (if nullish v then Inl (TypeError ''Cannot read properties of undefined'')
      else Inr (get_prop v k))"

text \<open>\<open>v?.key\<close>.\<close>

definition get_opt :: "js \<Rightarrow> string \<Rightarrow> js" where
  "get_opt v k = (if nullish v then Undefined else get_prop v k)"

text \<open>
  A property name chosen by the caller may also name a member that the value inherits
  through its prototype chain (\<open>constructor\<close>, \<open>toString\<close>, \<open>__proto__\<close>; \<open>map\<close> and the
  like on arrays). Which members those are belongs to the runtime: \<open>inherited v k\<close> is
  the member named \<open>k\<close> on the prototype chain of \<open>v\<close>, if there is one. \<open>key in v\<close> and
  \<open>v[key]\<close> (for a value whose \<open>typeof\<close> is \<open>'object'\<close> and that is not \<open>null\<close>) look at
  the own properties first and at the inherited members then.
\<close>

type_synonym prototypes = "js \<Rightarrow> string \<Rightarrow> js option"

definition has_in :: "prototypes \<Rightarrow> string \<Rightarrow> js \<Rightarrow> bool" where
  "has_in inherited k v = (has_own k v \<or> inherited v k \<noteq> None)"

definition get_member :: "prototypes \<Rightarrow> js \<Rightarrow> string \<Rightarrow> js" where
  "get_member inherited v k =
     (if has_own k v then get_prop v k
      else (case inherited v k of Some member \<Rightarrow> member | None \<Rightarrow> Undefined))"

text \<open>No inherited member: what the runtime gives for the fixed element names.\<close>

definition no_inherited :: prototypes where
  "no_inherited v k = None"

section \<open>XML navigation (src/lib/utils.ts)\<close>

text \<open>
  The loop of \<open>xmlNode\<close>: \<open>None\<close> is the early \<open>return undefined\<close>, \<open>Some current\<close> the
  value the loop ends with.
\<close>

fun walk :: "prototypes \<Rightarrow> js \<Rightarrow> string list \<Rightarrow> js option" where
  "walk inherited current [] = Some current"
| "walk inherited current (key # path) =
     (if truthy current \<and> typeof_object current \<and> has_in inherited key current
      then walk inherited (get_member inherited current key) path
      else None)"

definition xmlNode :: "prototypes \<Rightarrow> js \<Rightarrow> string list \<Rightarrow> js" where
  "xmlNode inherited obj path =
     (case walk inherited obj path of
        None \<Rightarrow> Undefined
      | Some current \<Rightarrow> js_or (get_opt current ''_text'') current)"

definition xmlArray :: "prototypes \<Rightarrow> js \<Rightarrow> string list \<Rightarrow> js list" where
  "xmlArray inherited obj path =
     (let node = xmlNode inherited obj path in
      if \<not> truthy node then []
      else (case node of Arr xs \<Rightarrow> xs | _ \<Rightarrow> [node]))"

section \<open>Transformation dispatch (src/lib/utils.ts)\<close>

record content_item =
  item_type :: string
  item_text :: js

record envelope =
  isError :: bool
  content :: "content_item list"

definition text_envelope :: "js \<Rightarrow> envelope" where
  "text_envelope t = \<lparr>isError = False, content = [\<lparr>item_type = ''text'', item_text = t\<rparr>]\<rparr>"

text \<open>
  \<open>fullParse\<close> calls the XML library, which is not part of the repository: the
  library's \<open>xml2js\<close> (in compact mode) is a parameter.
\<close>

definition fullParse :: "(js \<Rightarrow> js_error + js) \<Rightarrow> js \<Rightarrow> js_error + js" where
  "fullParse xml2js xmlString = xml2js xmlString"

text \<open>
  \<open>return_response\<close>. The environment is \<open>process.env\<close>; \<open>stringify\<close> is
  \<open>JSON.stringify(_, null, 2)\<close>, which may throw too and may return \<open>undefined\<close>; an
  absent transformer is \<open>None\<close>. The result is a sum so that an exception leaving the
  function would show as \<open>Inl\<close>.
\<close>

definition return_response ::
  "(string \<rightharpoonup> string) \<Rightarrow> (js \<Rightarrow> js_error + js) \<Rightarrow> ('t \<Rightarrow> js_error + js) \<Rightarrow>
   response \<Rightarrow> (js \<Rightarrow> js_error + 't) option \<Rightarrow> js_error + envelope" where
  "return_response env xml2js stringify response jsonTransformer =
     (let returnRawXml = (env ''RETURN_RAW_XML'' = Some ''true'') in
      if returnRawXml \<and> jsonTransformer \<noteq> None
      then Inr (text_envelope (rsp_data response))
      else (case jsonTransformer of
              Some transformer \<Rightarrow>
                (case then_do (then_do (fullParse xml2js (rsp_data response)) transformer) stringify of
                   Inr s \<Rightarrow> Inr (text_envelope s)
                 | Inl error \<Rightarrow> Inr (text_envelope (rsp_data response)))
            | None \<Rightarrow> Inr (text_envelope (rsp_data response))))"

section \<open>The package-info transformer (src/lib/utils.ts)\<close>

record package_object =
  OBJECT_TYPE :: js
  OBJECT_NAME :: js
  OBJECT_DESCRIPTION :: js
  OBJECT_URI :: js

record package_info =
  pkg_type :: string
  totalObjects :: nat
  objects :: "package_object list"

text \<open>The node list: the optional chain, \<open>|| []\<close>, and the coercion to an array.\<close>

definition package_nodes :: "js \<Rightarrow> js_error + js list" where
  "package_nodes parsed =
     then_do (get_strict parsed ''asx:abap'') (\<lambda>abap.
       let nodes = js_or (get_opt (get_opt (get_opt (get_opt abap ''asx:values'') ''DATA'')
                            ''TREE_CONTENT'') ''SEU_ADT_REPOSITORY_OBJ_NODE'') (Arr [])
       in Inr (case nodes of Arr xs \<Rightarrow> xs | _ \<Rightarrow> [nodes]))"

text \<open>The filter's callback: \<open>node.OBJECT_NAME?._text && node.OBJECT_URI?._text\<close>.\<close>

definition has_name_and_uri :: "js \<Rightarrow> js_error + bool" where
  "has_name_and_uri node =
     then_do (get_strict node ''OBJECT_NAME'') (\<lambda>name.
       if truthy (get_opt name ''_text'')
       then then_do (get_strict node ''OBJECT_URI'') (\<lambda>uri. Inr (truthy (get_opt uri ''_text'')))
       else Inr False)"

text \<open>The map's callback; the fields are read in the order of the object literal.\<close>

definition to_package_object :: "js \<Rightarrow> js_error + package_object" where
  "to_package_object node =
     then_do (get_strict node ''OBJECT_TYPE'') (\<lambda>t.
     then_do (get_strict t ''_text'') (\<lambda>object_type.
     then_do (get_strict node ''OBJECT_NAME'') (\<lambda>n.
     then_do (get_strict n ''_text'') (\<lambda>object_name.
     then_do (get_strict node ''DESCRIPTION'') (\<lambda>d.
     then_do (get_strict node ''OBJECT_URI'') (\<lambda>u.
     then_do (get_strict u ''_text'') (\<lambda>object_uri.
       Inr \<lparr>OBJECT_TYPE = object_type, OBJECT_NAME = object_name,
            OBJECT_DESCRIPTION = get_opt d ''_text'', OBJECT_URI = object_uri\<rparr>)))))))"

fun filter_nodes :: "js list \<Rightarrow> js_error + js list" where
  "filter_nodes [] = Inr []"
| "filter_nodes (node # nodes) =
     (case has_name_and_uri node of
        Inl e \<Rightarrow> Inl e
      | Inr keep \<Rightarrow>
          (case filter_nodes nodes of
             Inl e \<Rightarrow> Inl e
           | Inr rest \<Rightarrow> Inr (if keep then node # rest else rest)))"

fun map_nodes :: "js list \<Rightarrow> js_error + package_object list" where
  "map_nodes [] = Inr []"
| "map_nodes (node # nodes) =
     (case to_package_object node of
        Inl e \<Rightarrow> Inl e
      | Inr obj \<Rightarrow>
          (case map_nodes nodes of
             Inl e \<Rightarrow> Inl e
           | Inr rest \<Rightarrow> Inr (obj # rest)))"

definition transformPackageInfo :: "js \<Rightarrow> js_error + package_info" where
  "transformPackageInfo parsed =
     then_do (package_nodes parsed) (\<lambda>nodes.
     then_do (filter_nodes nodes) (\<lambda>kept.
     then_do (map_nodes kept) (\<lambda>extractedData.
       Inr \<lparr>pkg_type = ''package_info'', totalObjects = length extractedData,
            objects = extractedData\<rparr>)))"

text \<open>
  The filter and the record shape as the specification words them, on nodes that are
  objects: an entry is kept when it has both a name text and a URI text.
\<close>

definition keeps_entry :: "js \<Rightarrow> bool" where
  "keeps_entry node =
     (truthy (get_opt (get_prop node ''OBJECT_NAME'') ''_text'') \<and>
      truthy (get_opt (get_prop node ''OBJECT_URI'') ''_text''))"

definition record_shape :: "js \<Rightarrow> package_object" where
  "record_shape node =
     \<lparr>OBJECT_TYPE = get_prop (get_prop node ''OBJECT_TYPE'') ''_text'',
      OBJECT_NAME = get_prop (get_prop node ''OBJECT_NAME'') ''_text'',
      OBJECT_DESCRIPTION = get_opt (get_prop node ''DESCRIPTION'') ''_text'',
      OBJECT_URI = get_prop (get_prop node ''OBJECT_URI'') ''_text''\<rparr>"

text \<open>A node the transformer can map: it is an object or a value and has a type child.\<close>

definition typed_entry :: "js \<Rightarrow> bool" where
  "typed_entry node = (\<not> nullish (get_prop node ''OBJECT_TYPE''))"

section \<open>Numbers and strings of the runtime\<close>

text \<open>
  A number as \<open>parseInt\<close> returns it: \<open>NaN\<close> or an integer. Numbers are doubles in the
  source; the model is exact, as the source is below \<open>2^53\<close>.
\<close>

datatype jsnum = NaN | Finite int

definition digit_char :: "nat \<Rightarrow> char" where
  "digit_char d = ''0123456789'' ! d"

fun nat_digits :: "nat \<Rightarrow> string" where
  "nat_digits n = (if n < 10 then [digit_char n] else nat_digits (n div 10) @ [digit_char (n mod 10)])"

declare nat_digits.simps [simp del]

definition int_to_string :: "int \<Rightarrow> string" where
  "int_to_string i = (if i < 0 then CHR ''-'' # nat_digits (nat (- i)) else nat_digits (nat i))"

fun join :: "string \<Rightarrow> string list \<Rightarrow> string" where
  "join sep [] = []"
| "join sep [x] = x"
| "join sep (x # y # ys) = x @ sep @ join sep (y # ys)"

text \<open>\<open>String(v)\<close>, for the values of the model.\<close>

fun js_toString :: "js \<Rightarrow> string" where
  "js_toString Undefined = ''undefined''"
| "js_toString Null = ''null''"
| "js_toString (Bool b) = (if b then ''true'' else ''false'')"
| "js_toString (Num n) = int_to_string n"
| "js_toString (Str s) = s"
| "js_toString (Arr xs) = join '','' (map (\<lambda>x. if nullish x then [] else js_toString x) xs)"
| "js_toString (Obj kvs) = ''[object Object]''"
| "js_toString (Function f) = f"

text \<open>
  \<open>parseInt(s, 10)\<close>: leading white space is skipped, a sign is read, then the longest
  run of digits; no digit gives \<open>NaN\<close>. White space is the ASCII white space.
\<close>

definition is_space :: "char \<Rightarrow> bool" where
  "is_space c = (c \<in> {CHR '' '', CHR 0x09, CHR 0x0A, CHR 0x0B, CHR 0x0C, CHR 0x0D})"

definition strip_sign :: "string \<Rightarrow> bool \<times> string" where
  "strip_sign s =
     (case s of
        [] \<Rightarrow> (False, s)
      | c # cs \<Rightarrow> if c = CHR ''-'' then (True, cs) else if c = CHR ''+'' then (False, cs) else (False, s))"

definition leading_digits :: "string \<Rightarrow> string" where
  "leading_digits input = takeWhile is_digit (snd (strip_sign (dropWhile is_space input)))"

definition parseInt10 :: "string \<Rightarrow> jsnum" where
  "parseInt10 input =
     (let z = leading_digits input in
      if z = [] then NaN
      else if fst (strip_sign (dropWhile is_space input)) then Finite (- int (digits_val 0 z))
      else Finite (int (digits_val 0 z)))"

text \<open>\<open>toInt\<close> (utils.ts): \<open>parseInt(String(value), 10)\<close>, with 0 for \<open>NaN\<close>.\<close>

definition toInt :: "js \<Rightarrow> int" where
  "toInt v = (case parseInt10 (js_toString v) of NaN \<Rightarrow> 0 | Finite n \<Rightarrow> n)"

section \<open>The property parser (src/handlers/handleCdsOperations.ts)\<close>

record anno =
  anno_key :: js
  anno_value :: js

record element_props =
  ddicIsKey :: bool
  ddicDataElement :: js
  ddicDataType :: js
  ddicLength :: "jsnum option"
  ddicDecimals :: "jsnum option"
  ddicHeading :: js
  ddicLabelShort :: js
  ddicLabelMedium :: js
  ddicLabelLong :: js
  ddicHeadingLength :: "jsnum option"
  ddicLabelShortLength :: "jsnum option"
  ddicLabelMediumLength :: "jsnum option"
  ddicLabelLongLength :: "jsnum option"
  parentName :: js

text \<open>
  \<open>prev[key] = value\<close> on an object in property order: an existing property keeps its
  place, a new one goes last. (The runtime lists integer-like names first; no such name
  matches the annotation pattern.)
\<close>

fun obj_set :: "(string \<times> js) list \<Rightarrow> string \<Rightarrow> js \<Rightarrow> (string \<times> js) list" where
  "obj_set [] k v = [(k, v)]"
| "obj_set ((k', v') # kvs) k v = (if k' = k then (k, v) # kvs else (k', v') # obj_set kvs k v)"

text \<open>The callback of \<open>reduce\<close>, and the reduction.\<close>

definition entry_step :: "(string \<times> js) list \<Rightarrow> js \<Rightarrow> js_error + (string \<times> js) list" where
  "entry_step prev cur =
     then_do (get_strict cur ''_attributes'') (\<lambda>attributes.
       let key = get_opt attributes ''abapsource:key'';
           val = js_or (get_prop cur ''_text'') (get_prop cur ''#text'')
       in Inr (if truthy key then obj_set prev (js_toString key) val else prev))"

fun reduce_entries :: "(string \<times> js) list \<Rightarrow> js list \<Rightarrow> js_error + (string \<times> js) list" where
  "reduce_entries prev [] = Inr prev"
| "reduce_entries prev (cur # rest) =
     (case entry_step prev cur of
        Inl e \<Rightarrow> Inl e
      | Inr prev' \<Rightarrow> reduce_entries prev' rest)"

text \<open>The destructuring: the fourteen named properties, and the rest.\<close>

definition ddic_names :: "string list" where
  "ddic_names =
     [''ddicIsKey'', ''ddicDataElement'', ''ddicDataType'', ''ddicLength'', ''ddicDecimals'',
      ''ddicHeading'', ''ddicLabelShort'', ''ddicLabelMedium'', ''ddicLabelLong'',
      ''ddicHeadingLength'', ''ddicLabelShortLength'', ''ddicLabelMediumLength'',
      ''ddicLabelLongLength'', ''parentName'']"

definition rawanno_of :: "(string \<times> js) list \<Rightarrow> (string \<times> js) list" where
  "rawanno_of converted = filter (\<lambda>kv. fst kv \<notin> set ddic_names) converted"

text \<open>\<open>x ? parseInt(x, 10) : undefined\<close>.\<close>

definition parse_length :: "js \<Rightarrow> jsnum option" where
  "parse_length x = (if truthy x then Some (parseInt10 (js_toString x)) else None)"

definition element_props_of :: "(string \<times> js) list \<Rightarrow> element_props option" where
  "element_props_of converted =
     (let field = get_prop (Obj converted) in
      if truthy (field ''ddicDataType'') \<or> field ''ddicDataType'' = Str []
      then Some \<lparr>ddicIsKey = (field ''ddicIsKey'' = Str ''true''),
                 ddicDataElement = field ''ddicDataElement'',
                 ddicDataType = field ''ddicDataType'',
                 ddicLength = parse_length (field ''ddicLength''),
                 ddicDecimals = parse_length (field ''ddicDecimals''),
                 ddicHeading = field ''ddicHeading'',
                 ddicLabelShort = field ''ddicLabelShort'',
                 ddicLabelMedium = field ''ddicLabelMedium'',
                 ddicLabelLong = field ''ddicLabelLong'',
                 ddicHeadingLength = parse_length (field ''ddicHeadingLength''),
                 ddicLabelShortLength = parse_length (field ''ddicLabelShortLength''),
                 ddicLabelMediumLength = parse_length (field ''ddicLabelMediumLength''),
                 ddicLabelLongLength = parse_length (field ''ddicLabelLongLength''),
                 parentName = field ''parentName''\<rparr>
      else None)"

text \<open>
  The regular expression \<open>/annotation(Key|Value)\.([0-9]+)/\<close>. It is not anchored: the
  match is the leftmost one in the key, and the digits are the longest run.
\<close>

datatype mtype = Key | Value

fun strip_prefix :: "string \<Rightarrow> string \<Rightarrow> string option" where
  "strip_prefix [] s = Some s"
| "strip_prefix (p # ps) [] = None"
| "strip_prefix (p # ps) (c # cs) = (if p = c then strip_prefix ps cs else None)"

definition match_type :: "string \<Rightarrow> (mtype \<times> string) option" where
  "match_type s =
     (case strip_prefix ''Key'' s of
        Some r \<Rightarrow> Some (Key, r)
      | None \<Rightarrow> (case strip_prefix ''Value'' s of Some r \<Rightarrow> Some (Value, r) | None \<Rightarrow> None))"

definition match_here :: "string \<Rightarrow> (mtype \<times> string) option" where
  "match_here s =
     (case strip_prefix ''annotation'' s of
        None \<Rightarrow> None
      | Some r \<Rightarrow>
          (case match_type r of
             None \<Rightarrow> None
           | Some (t, r') \<Rightarrow>
               (case strip_prefix ''.'' r' of
                  None \<Rightarrow> None
                | Some r'' \<Rightarrow>
                    if takeWhile is_digit r'' = [] then None
                    else Some (t, takeWhile is_digit r''))))"

fun regex_match :: "string \<Rightarrow> (mtype \<times> string) option" where
  "regex_match [] = match_here []"
| "regex_match (c # cs) =
     (case match_here (c # cs) of Some m \<Rightarrow> Some m | None \<Rightarrow> regex_match cs)"

text \<open>
  \<open>annotations[idx] || { key: "", value: "" }\<close> and \<open>annotations[idx] = anno\<close>. An
  assignment past the end fills the gap with holes. A number from \<open>2^32 - 1\<close> on is not
  an array index: the assignment then sets a plain property and leaves the elements.
\<close>

definition fresh_anno :: anno where
  "fresh_anno = \<lparr>anno_key = Str [], anno_value = Str []\<rparr>"

definition slot_or_fresh :: "anno option list \<Rightarrow> nat \<Rightarrow> anno" where
  "slot_or_fresh xs i =
     (if i < length xs then (case xs ! i of Some a \<Rightarrow> a | None \<Rightarrow> fresh_anno) else fresh_anno)"

definition arr_set :: "anno option list \<Rightarrow> nat \<Rightarrow> anno \<Rightarrow> anno option list" where
  "arr_set xs i a =
     (if 4294967295 \<le> i then xs
      else if i < length xs then xs[i := Some a]
      else xs @ replicate (i - length xs) None @ [Some a])"

text \<open>The body of the \<open>for ... in\<close> loop, and the loop.\<close>

definition anno_step :: "anno option list \<Rightarrow> string \<times> js \<Rightarrow> anno option list" where
  "anno_step annotations kv =
     (case regex_match (fst kv) of
        None \<Rightarrow> annotations
      | Some (mtype, digits) \<Rightarrow>
          (let idx = nat (toInt (Str digits));
               anno = slot_or_fresh annotations idx
           in arr_set annotations idx
                (if mtype = Key then anno\<lparr>anno_key := snd kv\<rparr> else anno\<lparr>anno_value := snd kv\<rparr>)))"

fun anno_loop :: "anno option list \<Rightarrow> (string \<times> js) list \<Rightarrow> anno option list" where
  "anno_loop annotations [] = annotations"
| "anno_loop annotations (kv # rest) = anno_loop (anno_step annotations kv) rest"

text \<open>
  The result. \<open>elementProps\<close> is \<open>None\<close> where the source leaves the falsy value of
  \<open>(ddicDataType || ddicDataType === "")\<close> in the field. \<open>annotations\<close> is a JavaScript
  array, which may have holes: \<open>None\<close> is a hole.
\<close>

record ddic_properties =
  elementProps :: "element_props option"
  annotations :: "anno option list"

definition parseDDICProps :: "js \<Rightarrow> js_error + ddic_properties" where
  "parseDDICProps raw =
     then_do (reduce_entries [] (xmlArray no_inherited raw [''abapsource:entry''])) (\<lambda>converted.
       Inr \<lparr>elementProps = element_props_of converted,
            annotations = anno_loop [] (rawanno_of converted)\<rparr>)"

text \<open>
  What an annotation key stands for: the kind of the match and the numeric index, when
  the key matches.
\<close>

definition anno_index :: "string \<Rightarrow> (mtype \<times> nat) option" where
  "anno_index k = map_option (\<lambda>m. (fst m, nat (toInt (Str (snd m))))) (regex_match k)"

text \<open>An entry node of a property bag, and the bag of a list of entries.\<close>

definition xml_entry :: "string \<times> string \<Rightarrow> js" where
  "xml_entry kv =
     Obj [(''_attributes'', Obj [(''abapsource:key'', Str (fst kv))]), (''_text'', Str (snd kv))]"

definition property_bag :: "js list \<Rightarrow> js" where
  "property_bag entries = Obj [(''abapsource:entry'', Arr entries)]"

section \<open>Session state and the request executor (src/lib/utils.ts)\<close>

text \<open>
  The configuration that \<open>getConfig\<close> reads from the environment (\<open>process.env\<close>, a
  map from names to strings).
\<close>

record sap_config =
  sap_url :: string
  sap_username :: string
  sap_password :: string
  sap_client :: string

definition missing_variables :: string where
  "missing_variables =
     ''Missing required environment variables. Required variables:'' @ [CHR 0x0A] @
     ''- SAP_URL'' @ [CHR 0x0A] @ ''- SAP_USERNAME'' @ [CHR 0x0A] @
     ''- SAP_PASSWORD'' @ [CHR 0x0A] @ ''- SAP_CLIENT''"

text \<open>\<open>!v\<close> for an optional string: absent or empty.\<close>

definition blank :: "string option \<Rightarrow> bool" where
  "blank v = (v = None \<or> v = Some [])"

definition getConfig :: "(string \<rightharpoonup> string) \<Rightarrow> js_error + sap_config" where
  "getConfig env =
     (if blank (env ''SAP_URL'') \<or> blank (env ''SAP_USERNAME'') \<or>
         blank (env ''SAP_PASSWORD'') \<or> blank (env ''SAP_CLIENT'')
      then Inl (Error missing_variables)
      else Inr \<lparr>sap_url = the (env ''SAP_URL''), sap_username = the (env ''SAP_USERNAME''),
                sap_password = the (env ''SAP_PASSWORD''), sap_client = the (env ''SAP_CLIENT'')\<rparr>)"

text \<open>
  A request as the executor builds it: the method, the URL, the four headers it may
  set, the timeout, the query parameters and the body. The \<open>Authorization\<close> value is
  \<open>Basic\<close> followed by the base64 encoding of \<open>username:password\<close>; the model keeps the
  text that is encoded.
\<close>

datatype authorization = Basic string

record request =
  req_method :: string
  req_url :: string
  req_authorization :: authorization
  req_sap_client :: string
  req_csrf_token :: "string option"
  req_cookie :: "string option"
  req_timeout :: "nat option"
  req_params :: js
  req_data :: "js option"

text \<open>
  What the HTTP client does with a request: the promise resolves with a response or is
  rejected with an \<open>AxiosError\<close>, which carries the response when the server answered.
  The remote system is a function of the requests sent so far and the request.
\<close>

datatype outcome = Resolved response | Rejected string "response option"

type_synonym server = "request list \<Rightarrow> request \<Rightarrow> outcome"

text \<open>
  The module state: whether the client instance exists, the cached configuration,
  token and cookies; and, for the properties below, the requests sent so far.
\<close>

record session =
  axiosInstance :: bool
  config :: "sap_config option"
  csrfToken :: "string option"
  cookies :: "string option"
  sent :: "request list"

definition createAxiosInstance :: "session \<Rightarrow> session" where
  "createAxiosInstance s = s\<lparr>axiosInstance := True\<rparr>"


text \<open>\<open>createAxiosInstance()(request)\<close>.\<close>

definition send :: "server \<Rightarrow> session \<Rightarrow> request \<Rightarrow> outcome \<times> session" where
  "send srv s request =
     (srv (sent s) request, (createAxiosInstance s)\<lparr>sent := sent s @ [request]\<rparr>)"

text \<open>\<open>if (!config) { config = getConfig(); }\<close>.\<close>

definition load_config :: "(string \<rightharpoonup> string) \<Rightarrow> session \<Rightarrow> (js_error + sap_config) \<times> session" where
  "load_config env s =
     (case config s of
        Some c \<Rightarrow> (Inr c, s)
      | None \<Rightarrow>
          (case getConfig env of
             Inl e \<Rightarrow> (Inl e, s)
           | Inr c \<Rightarrow> (Inr c, s\<lparr>config := Some c\<rparr>)))"

fun error_message :: "js_error \<Rightarrow> string" where
  "error_message (AxiosError m r) = m"
| "error_message (Error m) = m"
| "error_message (TypeError m) = m"

text \<open>
  \<open>getBaseUrl\<close>. The \<open>URL\<close> class belongs to the platform: its constructor is the
  parameter \<open>parseURL\<close>, which returns the parts of the URL or throws. The result is the
  buffer holding the origin.
\<close>

record url =
  origin :: string
  pathname :: string
  search :: string
  hash :: string

definition getBaseUrl ::
  "(string \<Rightarrow> js_error + url) \<Rightarrow> (string \<rightharpoonup> string) \<Rightarrow> session \<Rightarrow> (js_error + string) \<times> session" where
  "getBaseUrl parseURL env s =
     (case load_config env s of
        (Inl e, s1) \<Rightarrow> (Inl e, s1)
      | (Inr c, s1) \<Rightarrow>
          (case parseURL (sap_url c) of
             Inr urlObj \<Rightarrow> (Inr (origin urlObj), s1)
           | Inl error \<Rightarrow>
               (Inl (Error (''Invalid URL in configuration: '' @ error_message error)), s1)))"

definition getAuthHeaders ::
  "(string \<rightharpoonup> string) \<Rightarrow> session \<Rightarrow> (js_error + authorization \<times> string) \<times> session" where
  "getAuthHeaders env s =
     (case load_config env s of
        (Inl e, s1) \<Rightarrow> (Inl e, s1)
      | (Inr c, s1) \<Rightarrow> (Inr (Basic (sap_username c @ '':'' @ sap_password c), sap_client c), s1))"

text \<open>The token bootstrap request: a GET with the header \<open>x-csrf-token: fetch\<close>.\<close>

definition token_fetch_request :: "authorization \<times> string \<Rightarrow> string \<Rightarrow> request" where
  "token_fetch_request auth u =
     \<lparr>req_method = ''GET'', req_url = u, req_authorization = fst auth,
      req_sap_client = snd auth, req_csrf_token = Some ''fetch'', req_cookie = None,
      req_timeout = None, req_params = Undefined, req_data = None\<rparr>"

text \<open>\<open>cookies = headers['set-cookie'].join('; ')\<close>, when the header is there.\<close>

definition store_cookies :: "response \<Rightarrow> session \<Rightarrow> session" where
  "store_cookies r s =
     (case rsp_set_cookie r of
        Some cs \<Rightarrow> s\<lparr>cookies := Some (join ''; '' cs)\<rparr>
      | None \<Rightarrow> s)"

text \<open>
  The \<open>catch\<close> block of \<open>fetchCsrfToken\<close>: the token of an error response, or the
  failure.
\<close>

definition fetch_catch :: "js_error \<Rightarrow> session \<Rightarrow> (js_error + string) \<times> session" where
  "fetch_catch error s =
     (case error of
        AxiosError m (Some r) \<Rightarrow>
          (if \<not> blank (rsp_csrf_token r) then (Inr (the (rsp_csrf_token r)), store_cookies r s)
           else (Inl (Error (''Failed to fetch CSRF token: '' @ error_message error)), s))
      | _ \<Rightarrow> (Inl (Error (''Failed to fetch CSRF token: '' @ error_message error)), s))"

definition fetchCsrfToken ::
  "server \<Rightarrow> (string \<rightharpoonup> string) \<Rightarrow> session \<Rightarrow> string \<Rightarrow> (js_error + string) \<times> session" where
  "fetchCsrfToken srv env s u =
     (case getAuthHeaders env (createAxiosInstance s) of
        (Inl e, s1) \<Rightarrow> fetch_catch e s1
      | (Inr auth, s1) \<Rightarrow>
          (case send srv s1 (token_fetch_request auth u) of
             (Resolved r, s2) \<Rightarrow>
               (if blank (rsp_csrf_token r)
                then fetch_catch (Error ''No CSRF token in response headers'') s2
                else (Inr (the (rsp_csrf_token r)), store_cookies r s2))
           | (Rejected m r, s2) \<Rightarrow> fetch_catch (AxiosError m r) s2))"

text \<open>\<open>s.includes(p)\<close> on strings, and \<open>data?.includes('CSRF')\<close> on a response body.\<close>

fun str_includes :: "string \<Rightarrow> string \<Rightarrow> bool" where
  "str_includes [] p = (p = [])"
| "str_includes (c # cs) p = (strip_prefix p (c # cs) \<noteq> None \<or> str_includes cs p)"

fun data_includes :: "js \<Rightarrow> string \<Rightarrow> js_error + bool" where
  "data_includes Undefined p = Inr False"
| "data_includes Null p = Inr False"
| "data_includes (Str s) p = Inr (str_includes s p)"
| "data_includes (Arr xs) p = Inr (Str p \<in> set xs)"
| "data_includes v p = Inl (TypeError ''error.response.data?.includes is not a function'')"

text \<open>
  The test of the recovery path: an \<open>AxiosError\<close> whose response has status 403 and a
  body that includes \<open>CSRF\<close>.
\<close>

definition csrf_rejected :: "response option \<Rightarrow> js_error + bool" where
  "csrf_rejected r =
     (case r of
        None \<Rightarrow> Inr False
      | Some response \<Rightarrow>
          if rsp_status response = 403 then data_includes (rsp_data response) ''CSRF''
          else Inr False)"

definition mutating :: "string \<Rightarrow> bool" where
  "mutating method = (method = ''POST'' \<or> method = ''PUT'')"

text \<open>
  \<open>makeAdtRequest\<close>, first part: the token bootstrap for POST and PUT without a cached
  token, the headers and the request configuration.
\<close>

definition prepare ::
  "server \<Rightarrow> (string \<rightharpoonup> string) \<Rightarrow> session \<Rightarrow> string \<Rightarrow> string \<Rightarrow> nat \<Rightarrow> js \<Rightarrow> js \<Rightarrow>
   (js_error + request) \<times> session" where
  "prepare srv env s u method timeout data params =
     (case (if mutating method \<and> blank (csrfToken s)
            then (case fetchCsrfToken srv env s u of
                    (Inr token, s1) \<Rightarrow> (Inr (), s1\<lparr>csrfToken := Some token\<rparr>)
                  | (Inl e, s1) \<Rightarrow>
                      (Inl (Error ''CSRF token is required for POST/PUT requests but could not be fetched''),
                       s1))
            else (Inr (), s)) of
        (Inl e, s1) \<Rightarrow> (Inl e, s1)
      | (Inr _, s1) \<Rightarrow>
          (case getAuthHeaders env s1 of
             (Inl e, s2) \<Rightarrow> (Inl e, s2)
           | (Inr auth, s2) \<Rightarrow>
               (Inr \<lparr>req_method = method, req_url = u, req_authorization = fst auth,
                     req_sap_client = snd auth,
                     req_csrf_token =
                       (if mutating method \<and> \<not> blank (csrfToken s2) then csrfToken s2 else None),
                     req_cookie = (if \<not> blank (cookies s2) then cookies s2 else None),
                     req_timeout = Some timeout, req_params = params,
                     req_data = (if truthy data then Some data else None)\<rparr>, s2)))"

text \<open>
  Second part: the request, and in the \<open>catch\<close> block the one token refresh and the
  one retry.
\<close>

definition settle :: "outcome \<Rightarrow> js_error + response" where
  "settle out = (case out of Resolved r \<Rightarrow> Inr r | Rejected m r \<Rightarrow> Inl (AxiosError m r))"

definition attempt ::
  "server \<Rightarrow> (string \<rightharpoonup> string) \<Rightarrow> session \<Rightarrow> string \<Rightarrow> request \<Rightarrow>
   (js_error + response) \<times> session" where
  "attempt srv env s u request =
     (case send srv s request of
        (Resolved response, s1) \<Rightarrow> (Inr response, s1)
      | (Rejected m r, s1) \<Rightarrow>
          (case csrf_rejected r of
             Inl e \<Rightarrow> (Inl e, s1)
           | Inr False \<Rightarrow> (Inl (AxiosError m r), s1)
           | Inr True \<Rightarrow>
               (case fetchCsrfToken srv env s1 u of
                  (Inl e, s2) \<Rightarrow> (Inl e, s2)
                | (Inr token, s2) \<Rightarrow>
                    (case send srv (s2\<lparr>csrfToken := Some token\<rparr>)
                            (request\<lparr>req_csrf_token := Some token\<rparr>) of
                       (out, s3) \<Rightarrow> (settle out, s3)))))"

definition makeAdtRequest ::
  "server \<Rightarrow> (string \<rightharpoonup> string) \<Rightarrow> session \<Rightarrow> string \<Rightarrow> string \<Rightarrow> nat \<Rightarrow> js \<Rightarrow> js \<Rightarrow>
   (js_error + response) \<times> session" where
  "makeAdtRequest srv env s u method timeout data params =
     (case prepare srv env s u method timeout data params of
        (Inl e, s1) \<Rightarrow> (Inl e, s1)
      | (Inr request, s1) \<Rightarrow> attempt srv env s1 u request)"

text \<open>
  What a token bootstrap exchange yields: the token and the response that carried it,
  from a success response or from an error response; nothing when neither has one.
\<close>

definition exchange_token :: "outcome \<Rightarrow> (string \<times> response) option" where
  "exchange_token out =
     (case out of
        Resolved r \<Rightarrow> if blank (rsp_csrf_token r) then None else Some (the (rsp_csrf_token r), r)
      | Rejected m (Some r) \<Rightarrow>
          if blank (rsp_csrf_token r) then None else Some (the (rsp_csrf_token r), r)
      | Rejected m None \<Rightarrow> None)"

section \<open>The operations (src/handlers)\<close>

text \<open>
  \<open>return_error\<close>: the envelope with \<open>isError: true\<close>. For an \<open>AxiosError\<close> the text is
  \<open>String(error.response?.data)\<close>, for another error its message.
\<close>

definition return_error :: "js_error \<Rightarrow> envelope" where
  "return_error error =
     \<lparr>isError = True,
      content =
        [\<lparr>item_type = ''text'',
          item_text =
            Str (''Error: '' @
                 (case error of
                    AxiosError m r \<Rightarrow>
                      js_toString (case r of Some response \<Rightarrow> rsp_data response | None \<Rightarrow> Undefined)
                  | _ \<Rightarrow> error_message error))\<rparr>]\<rparr>"

text \<open>
  What the operations take from the platform and the libraries: the \<open>URL\<close> class,
  \<open>URLSearchParams\<close> (the text of the pairs appended, in order), \<open>encodeURIComponent\<close>,
  the XML library, \<open>JSON.stringify(_, null, 2)\<close> on the two results, and the message of
  an \<open>McpError\<close> with the code \<open>InvalidParams\<close>.
\<close>

record 'p platform =
  url_class :: "string \<Rightarrow> js_error + url"
  url_search_params :: "(string \<times> string) list \<Rightarrow> string"
  uri_component :: "string \<Rightarrow> string"
  xml_library :: "js \<Rightarrow> js_error + js"
  json_stringify :: "'p \<Rightarrow> js_error + js"
  invalid_params :: "string \<Rightarrow> string"

text \<open>\<open>formatQS\<close>, on the entries of the parameter object in their order.\<close>

definition formatQS :: "((string \<times> string) list \<Rightarrow> string) \<Rightarrow> (string \<times> js) list \<Rightarrow> string" where
  "formatQS searchParams params =
     searchParams
       (concat (map (\<lambda>(key, v).
                       case v of
                         Arr vs \<Rightarrow> map (\<lambda>x. (key, js_toString x)) vs
                       | _ \<Rightarrow> if v \<noteq> Undefined \<and> v \<noteq> Null then [(key, js_toString v)] else [])
                    params))"

text \<open>
  \<open>handleGetPackage\<close>. Everything is inside one \<open>try\<close>, whose \<open>catch\<close> answers with
  \<open>return_error\<close>; the session is returned with the envelope.
\<close>

definition nodeContentsParams :: "'p platform \<Rightarrow> js \<Rightarrow> js" where
  "nodeContentsParams pf args =
     Obj [(''parent_type'', Str ''DEVC/K''),
          (''parent_name'', Str (uri_component pf (js_toString (get_prop args ''package_name'')))),
          (''withShortDescriptions'', Bool True)]"

definition handleGetPackage ::
  "package_info platform \<Rightarrow> server \<Rightarrow> (string \<rightharpoonup> string) \<Rightarrow> session \<Rightarrow> js \<Rightarrow> envelope \<times> session" where
  "handleGetPackage pf srv env s args =
     (if \<not> truthy (get_opt args ''package_name'')
      then (return_error (Error (invalid_params pf ''Package name is required'')), s)
      else
        (case getBaseUrl (url_class pf) env s of
           (Inl e, s1) \<Rightarrow> (return_error e, s1)
         | (Inr base, s1) \<Rightarrow>
             (case makeAdtRequest srv env s1 (base @ ''/sap/bc/adt/repository/nodestructure'')
                     ''POST'' 30000 Undefined (nodeContentsParams pf args) of
                (Inl e, s2) \<Rightarrow> (return_error e, s2)
              | (Inr response, s2) \<Rightarrow>
                  (case return_response env (xml_library pf) (json_stringify pf) response
                          (Some transformPackageInfo) of
                     Inl e \<Rightarrow> (return_error e, s2)
                   | Inr result \<Rightarrow> (result, s2)))))"

text \<open>
  \<open>parseDdicElement\<close>: the type and the name from the attributes, the properties, and
  the children, which are the nested \<open>abapsource:elementInfo\<close> elements parsed the same
  way.
\<close>

datatype ddic_element = DdicElement (el_type: js) (el_name: js) (el_properties: ddic_properties) (el_children: "ddic_element list")

fun collect :: "('e + 'a) list \<Rightarrow> 'e + 'a list" where
  "collect [] = Inr []"
| "collect (r # rs) =
     (case r of
        Inl e \<Rightarrow> Inl e
      | Inr v \<Rightarrow> (case collect rs of Inl e \<Rightarrow> Inl e | Inr vs \<Rightarrow> Inr (v # vs)))"

function parseDdicElement :: "js \<Rightarrow> js_error + ddic_element" where
  "parseDdicElement raw =
     (case get_strict raw ''_attributes'' of
        Inl e \<Rightarrow> Inl e
      | Inr attributes \<Rightarrow>
          (case parseDDICProps (get_prop raw ''abapsource:properties'') of
             Inl e \<Rightarrow> Inl e
           | Inr props \<Rightarrow>
               (case collect (map parseDdicElement
                                (xmlArray no_inherited raw [''abapsource:elementInfo''])) of
                  Inl e \<Rightarrow> Inl e
                | Inr children \<Rightarrow>
                    Inr (DdicElement (get_opt attributes ''adtcore:type'')
                           (get_opt attributes ''adtcore:name'') props children))))"
  by pat_completeness auto
termination
proof (relation "measure size")
  show "wf (measure size)" by simp
next
  fix raw :: js and attributes :: js and props :: ddic_properties and x :: js
  assume x: "x \<in> set (xmlArray no_inherited raw [''abapsource:elementInfo''])"
  have member: "size v < size (Obj kvs)" if "map_of kvs k = Some v" for kvs k and v :: js
    using that by (induction kvs) (auto split: if_splits)
  have element: "size (xs ! i) < size (Arr xs)" if "i < length xs" for xs :: "js list" and i
    using size_list_estimation' [of "xs ! i" xs "size (xs ! i)" size] that by simp
  have child: "size (get_prop v k) < size v" if own: "has_own k v" for v k
  proof (cases v)
    case (Obj kvs)
    with own obtain w where "map_of kvs k = Some w" by auto
    with member [OF this] Obj show ?thesis by simp
  next
    case (Arr xs)
    show ?thesis
    proof (cases "k = ''length''")
      case True
      with Arr show ?thesis by simp
    next
      case False
      with own Arr obtain i where "arr_index k = Some i" and "i < length xs"
        by (auto split: option.splits)
      with element [OF this(2)] Arr False show ?thesis by simp
    qed
  qed (use own in simp_all)
  have other: "get_prop v k = Undefined" if "\<not> has_own k v" for v k
    using that by (cases v) (auto split: option.splits)
  have part: "size (get_prop v k) \<le> size v" for v k
    using child [of k v] other [of k v] by (cases "has_own k v") simp_all
  have items: "size y \<le> size node"
    if "y \<in> set (case node of Arr ys \<Rightarrow> ys | _ \<Rightarrow> [node])" for y node
  proof (cases node)
    case (Arr ys)
    with that size_list_estimation' [of y ys "size y" size] show ?thesis by simp
  qed (use that in simp_all)
  let ?k = "''abapsource:elementInfo''"
  define v where "v = get_prop raw ?k"
  define node where "node = js_or (get_opt v ''_text'') v"
  have w: "walk no_inherited raw [?k] =
             (if truthy raw \<and> typeof_object raw \<and> has_own ?k raw then Some v else None)"
    by (simp add: has_in_def get_member_def no_inherited_def v_def)
  have guard: "truthy raw \<and> typeof_object raw \<and> has_own ?k raw"
  proof (rule ccontr)
    assume "\<not> (truthy raw \<and> typeof_object raw \<and> has_own ?k raw)"
    then have "walk no_inherited raw [?k] = None"
      unfolding w by simp
    then have "xmlArray no_inherited raw [?k] = []"
      by (simp add: xmlArray_def xmlNode_def)
    with x show False by simp
  qed
  then have "walk no_inherited raw [?k] = Some v"
    unfolding w by simp
  then have "xmlNode no_inherited raw [?k] = node"
    by (simp add: xmlNode_def node_def)
  then have "xmlArray no_inherited raw [?k] =
               (if \<not> truthy node then [] else (case node of Arr ys \<Rightarrow> ys | _ \<Rightarrow> [node]))"
    by (simp add: xmlArray_def)
  with x have xs: "x \<in> set (case node of Arr ys \<Rightarrow> ys | _ \<Rightarrow> [node])"
    by (simp split: if_splits)
  have "size node \<le> size v"
    using part [of v "''_text''"] by (simp add: node_def js_or_def get_opt_def)
  with items [OF xs] child [of ?k raw] guard show "(x, raw) \<in> measure size"
    by (simp add: v_def)
qed


text \<open>A destructuring default: it applies when the property is \<open>undefined\<close>.\<close>

definition default_to :: "js \<Rightarrow> js \<Rightarrow> js" where
  "default_to d v = (if v = Undefined then d else v)"

text \<open>
  \<open>handleGetCdsView\<close>. Again one \<open>try\<close> around everything and \<open>return_error\<close> in the
  \<open>catch\<close>. The envelope is built in the handler itself.
\<close>

definition cds_query :: "'p platform \<Rightarrow> js \<Rightarrow> string" where
  "cds_query pf args =
     formatQS (url_search_params pf)
       [(''getTargetForAssociation'',
           default_to (Bool False) (get_prop args ''getTargetForAssociation'')),
        (''getExtensionViews'', default_to (Bool True) (get_prop args ''getExtensionViews'')),
        (''getSecondaryObjects'', default_to (Bool True) (get_prop args ''getSecondaryObjects'')),
        (''path'', get_prop args ''path'')]"

definition handleGetCdsView ::
  "ddic_element platform \<Rightarrow> server \<Rightarrow> (string \<rightharpoonup> string) \<Rightarrow> session \<Rightarrow> js \<Rightarrow> envelope \<times> session" where
  "handleGetCdsView pf srv env s args =
     (if \<not> truthy (get_opt args ''path'')
      then (return_error (Error (invalid_params pf ''Path is required'')), s)
      else
        (case getBaseUrl (url_class pf) env s of
           (Inl e, s1) \<Rightarrow> (return_error e, s1)
         | (Inr base, s1) \<Rightarrow>
             (case makeAdtRequest srv env s1
                     (base @ ''/sap/bc/adt/ddic/ddl/elementinfo?'' @ cds_query pf args)
                     ''GET'' 30000 Undefined Undefined of
                (Inl e, s2) \<Rightarrow> (return_error e, s2)
              | (Inr response, s2) \<Rightarrow>
                  (case then_do
                          (then_do
                             (then_do (fullParse (xml_library pf) (rsp_data response))
                                (\<lambda>raw. get_strict raw ''abapsource:elementInfo''))
                             parseDdicElement)
                          (json_stringify pf) of
                     Inl e \<Rightarrow> (return_error e, s2)
                   | Inr t \<Rightarrow> (text_envelope t, s2)))))"

declare parseDdicElement.simps [simp del]

section \<open>Notions for stating the properties\<close>

text \<open>Slot \<open>j\<close> of the array holds an annotation (it is inside the array and not a hole).\<close>

definition filled :: "anno option list \<Rightarrow> nat \<Rightarrow> bool" where
  "filled xs j = (j < length xs \<and> xs ! j \<noteq> None)"

text \<open>The value of the last entry of the bag whose key matches kind \<open>t\<close> and index \<open>n\<close>.\<close>

fun last_for :: "mtype \<Rightarrow> nat \<Rightarrow> (string \<times> js) list \<Rightarrow> js option" where
  "last_for t n [] = None"
| "last_for t n (kv # rest) =
     (case last_for t n rest of
        Some v \<Rightarrow> Some v
      | None \<Rightarrow> if anno_index (fst kv) = Some (t, n) then Some (snd kv) else None)"

definition set_field :: "mtype \<Rightarrow> anno \<Rightarrow> js \<Rightarrow> anno" where
  "set_field t a v = (if t = Key then a\<lparr>anno_key := v\<rparr> else a\<lparr>anno_value := v\<rparr>)"

text \<open>The entry nodes of a list of key and text pairs reduce to that list.\<close>

definition as_property :: "string \<times> string \<Rightarrow> string \<times> js" where
  "as_property kv = (fst kv, Str (snd kv))"

text \<open>
  How a length or decimals field is read from its raw value: the field is
  \<open>undefined\<close> exactly when the raw value is absent or empty; a non-empty text gives
  what \<open>parseInt\<close> gives, which is \<open>NaN\<close> exactly when the text does not start (after
  white space and a sign) with a digit.
\<close>

definition read_as_length :: "js \<Rightarrow> jsnum option \<Rightarrow> bool" where
  "read_as_length x r =
     ((r = None \<longleftrightarrow> \<not> truthy x) \<and>
      (\<forall>s. x = Str s \<and> s \<noteq> [] \<longrightarrow>
         r = Some (parseInt10 s) \<and> (r = Some NaN \<longleftrightarrow> leading_digits s = [])))"

text \<open>
  The configuration \<open>c\<close> is available to a call: it is cached, or the environment
  supplies it.
\<close>

definition configured :: "(string \<rightharpoonup> string) \<Rightarrow> session \<Rightarrow> sap_config \<Rightarrow> bool" where
  "configured env s c = (config s = Some c \<or> (config s = None \<and> getConfig env = Inr c))"

definition credentials :: "sap_config \<Rightarrow> authorization \<times> string" where
  "credentials c = (Basic (sap_username c @ '':'' @ sap_password c), sap_client c)"

text \<open>The message of the error a token bootstrap exchange without a token ends with.\<close>

definition fetch_failure :: "outcome \<Rightarrow> string" where
  "fetch_failure out =
     ''Failed to fetch CSRF token: '' @
       (case out of Resolved r \<Rightarrow> ''No CSRF token in response headers'' | Rejected m r \<Rightarrow> m)"

text \<open>The request that \<open>makeAdtRequest\<close> configures from the session state.\<close>

definition configured_request ::
  "sap_config \<Rightarrow> session \<Rightarrow> string \<Rightarrow> string \<Rightarrow> nat \<Rightarrow> js \<Rightarrow> js \<Rightarrow> request" where
  "configured_request c s u method timeout data params =
     \<lparr>req_method = method, req_url = u, req_authorization = fst (credentials c),
      req_sap_client = snd (credentials c),
      req_csrf_token = (if mutating method \<and> \<not> blank (csrfToken s) then csrfToken s else None),
      req_cookie = (if \<not> blank (cookies s) then cookies s else None),
      req_timeout = Some timeout, req_params = params,
      req_data = (if truthy data then Some data else None)\<rparr>"

text \<open>
  The cached configuration and cookies survive from one state to a later one: a cached
  configuration is still the cached one, and cached cookies are still cached (they may
  have been replaced).
\<close>

definition kept :: "session \<Rightarrow> session \<Rightarrow> bool" where
  "kept s s' =
     ((\<forall>c. config s = Some c \<longrightarrow> config s' = Some c) \<and>
      (cookies s \<noteq> None \<longrightarrow> cookies s' \<noteq> None))"

section \<open>Sample inputs\<close>

text \<open>
  A tree with a repeated element \<open>item\<close>, a single element \<open>name\<close> and no element
  \<open>other\<close>.
\<close>

definition sample_tree :: js where
  "sample_tree =
     Obj [(''root'',
       Obj [(''item'', Arr [Obj [(''_text'', Str ''a'')], Obj [(''_text'', Str ''b'')],
                            Obj [(''_text'', Str ''c'')]]),
            (''name'', Obj [(''_attributes'', Obj [(''id'', Str ''7'')])])])]"

text \<open>
  Some of what the runtime lets objects and arrays inherit: the \<open>constructor\<close> and
  \<open>toString\<close> of both, and the \<open>map\<close> of arrays.
\<close>

definition sample_prototypes :: prototypes where
  "sample_prototypes v k =
     (case v of
        Obj kvs \<Rightarrow>
          if k = ''constructor'' then Some (Function ''function Object() { [native code] }'')
          else if k = ''toString'' then Some (Function ''function toString() { [native code] }'')
          else None
      | Arr xs \<Rightarrow>
          if k = ''constructor'' then Some (Function ''function Array() { [native code] }'')
          else if k = ''toString'' then Some (Function ''function toString() { [native code] }'')
          else if k = ''map'' then Some (Function ''function map() { [native code] }'')
          else None
      | _ \<Rightarrow> None)"

text \<open>
  The element \<open>a\<close> of \<open><a>foo<b/>bar</a>\<close> occurs once and has two text nodes, which
  the parser collects in a list under \<open>_text\<close>: the path resolves to a single element
  and the sequence has two members.
\<close>

definition mixed_tree :: js where
  "mixed_tree = Obj [(''a'', Obj [(''_text'', Arr [Str ''foo'', Str ''bar'']), (''b'', Obj [])])]"

text \<open>
  For the dispatch: a parser and a transformer that throw, a response whose body is not
  XML, and a transformer and a serialiser that succeed.
\<close>

definition failing_parser :: "js \<Rightarrow> js_error + js" where
  "failing_parser d = Inl (Error ''Text data outside of root node.'')"

definition failing_transformer :: "js \<Rightarrow> js_error + js" where
  "failing_transformer t = Inl (TypeError ''Cannot read properties of undefined'')"

definition plain_response :: response where
  "plain_response = \<lparr>rsp_status = 200, rsp_csrf_token = None, rsp_set_cookie = None,
                       rsp_data = Str ''not xml''\<rparr>"

definition tagging_transformer :: "js \<Rightarrow> js_error + js" where
  "tagging_transformer t = Inr (Obj [(''type'', Str ''search_results''), (''parsed'', t)])"

definition flat_stringify :: "js \<Rightarrow> js_error + js" where
  "flat_stringify v = (case v of Obj kvs \<Rightarrow> Inr (Str ''{...}'') | _ \<Rightarrow> Inr v)"

text \<open>
  For the package tree: an element with a text, a complete node entry, an entry without
  a name text, an entry without a type child, and the tree around a list of entries.
\<close>

definition text_node :: "string \<Rightarrow> js" where
  "text_node t = Obj [(''_text'', Str t)]"

definition entry_full :: "string \<Rightarrow> js" where
  "entry_full n =
     Obj [(''OBJECT_TYPE'', text_node ''CLAS/OC''), (''OBJECT_NAME'', text_node n),
          (''DESCRIPTION'', text_node ''A class''),
          (''OBJECT_URI'', text_node (''/sap/bc/adt/oo/classes/'' @ n))]"

definition entry_without_name :: js where
  "entry_without_name =
     Obj [(''OBJECT_TYPE'', text_node ''DEVC/K''), (''OBJECT_NAME'', Obj []),
          (''OBJECT_URI'', text_node ''/sap/bc/adt/packages/zpkg'')]"

definition entry_without_type :: js where
  "entry_without_type =
     Obj [(''OBJECT_NAME'', text_node ''ZCL_C''),
          (''OBJECT_URI'', text_node ''/sap/bc/adt/oo/classes/zcl_c'')]"

definition package_tree :: "js list \<Rightarrow> js" where
  "package_tree nodes =
     Obj [(''asx:abap'', Obj [(''asx:values'', Obj [(''DATA'', Obj [(''TREE_CONTENT'',
       Obj [(''SEU_ADT_REPOSITORY_OBJ_NODE'', Arr nodes)])])])])]"

text \<open>The four entries of the specification's example.\<close>

definition example_entries :: "(string \<times> string) list" where
  "example_entries =
     [(''annotationKey.0'', ''A''), (''annotationValue.1'', ''B''),
      (''annotationValue.0'', ''C''), (''annotationKey.1'', ''D'')]"

text \<open>
  A bag with a value entry before its key entry, a DDIC entry and an unrelated entry
  between them, for index 7; and the example in the order D, C, B, A.
\<close>

definition sparse_entries :: "(string \<times> string) list" where
  "sparse_entries =
     [(''annotationValue.7'', ''V''), (''ddicDataType'', ''CHAR''), (''other'', ''x''),
      (''annotationKey.7'', ''K'')]"

text \<open>
  A field bag with a length of \<open>10\<close>, decimals of \<open>x\<close>, no heading length and the key
  flag \<open>true\<close>; and one with the length \<open>abc\<close> and the key flag \<open>TRUE\<close>.
\<close>

definition field_entries :: "(string \<times> string) list" where
  "field_entries =
     [(''ddicDataType'', ''CHAR''), (''ddicLength'', ''10''), (''ddicDecimals'', ''x''),
      (''ddicIsKey'', ''true'')]"

definition field_props :: element_props where
  "field_props =
     \<lparr>ddicIsKey = True, ddicDataElement = Undefined, ddicDataType = Str ''CHAR'',
      ddicLength = Some (Finite 10), ddicDecimals = Some NaN, ddicHeading = Undefined,
      ddicLabelShort = Undefined, ddicLabelMedium = Undefined, ddicLabelLong = Undefined,
      ddicHeadingLength = None, ddicLabelShortLength = None, ddicLabelMediumLength = None,
      ddicLabelLongLength = None, parentName = Undefined\<rparr>"

definition bad_length_entries :: "(string \<times> string) list" where
  "bad_length_entries =
     [(''ddicDataType'', ''CHAR''), (''ddicLength'', ''abc''), (''ddicIsKey'', ''TRUE'')]"

text \<open>
  A process that has made no request yet, its environment, and four remote systems:
  one that rejects the first request for its token and then serves a token and the
  request; one that rejects the first request for its token and is then unreachable;
  one that rejects every request with a 403 whose body was parsed to an object; one
  that answers every request with a server error.
\<close>

definition fresh_session :: session where
  "fresh_session = \<lparr>axiosInstance = False, config = None, csrfToken = None, cookies = None, sent = []\<rparr>"

definition sample_env :: "string \<rightharpoonup> string" where
  "sample_env =
     [''SAP_URL'' \<mapsto> ''https://sap.example.com:8000/sap/bc?x=1#top'',
      ''SAP_USERNAME'' \<mapsto> ''DEVELOPER'', ''SAP_PASSWORD'' \<mapsto> ''secret'',
      ''SAP_CLIENT'' \<mapsto> ''100'']"

definition sample_config :: sap_config where
  "sample_config =
     \<lparr>sap_url = ''https://sap.example.com:8000/sap/bc?x=1#top'', sap_username = ''DEVELOPER'',
      sap_password = ''secret'', sap_client = ''100''\<rparr>"



definition ok_response :: response where
  "ok_response =
     \<lparr>rsp_status = 200, rsp_csrf_token = None, rsp_set_cookie = None, rsp_data = Str ''<ok/>''\<rparr>"






definition sample_url :: string where
  "sample_url = ''https://sap.example.com:8000/sap/bc/adt/programs/programs/ztest/source/main''"


definition sample_fetch :: request where
  "sample_fetch =
     \<lparr>req_method = ''GET'', req_url = sample_url, req_authorization = Basic ''DEVELOPER:secret'',
      req_sap_client = ''100'', req_csrf_token = Some ''fetch'', req_cookie = None,
      req_timeout = None, req_params = Undefined, req_data = None\<rparr>"

text \<open>
  A remote system that answers the token request with an error response carrying a
  token and a cookie, and then serves the request; and one that never sends a token.
\<close>

definition error_token_response :: response where
  "error_token_response =
     \<lparr>rsp_status = 405, rsp_csrf_token = Some ''TOKEN1'', rsp_set_cookie = Some [''SAP_SESSIONID=xyz''],
      rsp_data = Str ''Method not allowed''\<rparr>"

definition error_token_server :: server where
  "error_token_server history request =
     (if history = [] then Rejected ''Request failed with status code 405'' (Some error_token_response)
      else Resolved ok_response)"

definition tokenless_server :: server where
  "tokenless_server history request = Resolved ok_response"



text \<open>The URL constructor on the configured URL of the example, and on a text without a scheme.\<close>

definition sample_parseURL :: "string \<Rightarrow> js_error + url" where
  "sample_parseURL input =
     (if input = ''https://sap.example.com:8000/sap/bc?x=1#top''
      then Inr \<lparr>origin = ''https://sap.example.com:8000'', pathname = ''/sap/bc'',
                search = ''?x=1'', hash = ''#top''\<rparr>
      else Inl (TypeError ''Invalid URL''))"

definition broken_env :: "string \<rightharpoonup> string" where
  "broken_env = sample_env(''SAP_URL'' \<mapsto> ''sap.example.com'')"

text \<open>
  For the operations: a text in double quotes; the answer of the remote system to the
  element-info request for the view \<open>ZVIEW\<close>, its parsed tree, the element parsed from
  it and the serialisation of that element; the platform on these inputs (a query and
  a name that need no escaping); and a remote system that always gives this answer.
\<close>

definition quoted :: "string \<Rightarrow> string" where
  "quoted t = CHR 0x22 # t @ [CHR 0x22]"

definition cds_xml :: string where
  "cds_xml =
     ''<abapsource:elementInfo adtcore:type='' @ quoted ''DDLS/DF'' @
     '' adtcore:name='' @ quoted ''ZVIEW'' @ ''/>''"

definition cds_tree :: js where
  "cds_tree =
     Obj [(''abapsource:elementInfo'',
           Obj [(''_attributes'',
                 Obj [(''adtcore:type'', Str ''DDLS/DF''), (''adtcore:name'', Str ''ZVIEW'')])])]"

definition cds_element :: ddic_element where
  "cds_element =
     DdicElement (Str ''DDLS/DF'') (Str ''ZVIEW'') \<lparr>elementProps = None, annotations = []\<rparr> []"

definition cds_json :: string where
  "cds_json =
     join [CHR 0x0A]
       [''{'',
        ''  '' @ quoted ''type'' @ '': '' @ quoted ''DDLS/DF'' @ '','',
        ''  '' @ quoted ''name'' @ '': '' @ quoted ''ZVIEW'' @ '','',
        ''  '' @ quoted ''properties'' @ '': {'',
        ''    '' @ quoted ''elementProps'' @ '': false,'',
        ''    '' @ quoted ''annotations'' @ '': []'',
        ''  },'',
        ''  '' @ quoted ''children'' @ '': []'',
        ''}'']"

definition cds_response :: response where
  "cds_response =
     \<lparr>rsp_status = 200, rsp_csrf_token = None, rsp_set_cookie = None, rsp_data = Str cds_xml\<rparr>"

definition cds_server :: server where
  "cds_server history request = Resolved cds_response"

definition plain_query :: "(string \<times> string) list \<Rightarrow> string" where
  "plain_query pairs = join ''&'' (map (\<lambda>(k, v). k @ ''='' @ v) pairs)"

definition sample_xml2js :: "js \<Rightarrow> js_error + js" where
  "sample_xml2js d =
     (if d = Str cds_xml then Inr cds_tree else Inl (Error ''Text data outside of root node.''))"

definition cds_platform :: "ddic_element platform" where
  "cds_platform =
     \<lparr>url_class = sample_parseURL, url_search_params = plain_query, uri_component = (\<lambda>t. t),
      xml_library = sample_xml2js,
      json_stringify =
        (\<lambda>element. if element = cds_element then Inr (Str cds_json)
                    else Inl (TypeError ''Converting circular structure to JSON'')),
      invalid_params = (\<lambda>m. ''MCP error -32602: '' @ m)\<rparr>"

definition package_platform :: "package_info platform" where
  "package_platform =
     \<lparr>url_class = sample_parseURL, url_search_params = plain_query, uri_component = (\<lambda>t. t),
      xml_library = sample_xml2js,
      json_stringify = (\<lambda>info. Inr (Str ''{...}'')),
      invalid_params = (\<lambda>m. ''MCP error -32602: '' @ m)\<rparr>"

definition raw_env :: "string \<rightharpoonup> string" where
  "raw_env = sample_env(''RETURN_RAW_XML'' \<mapsto> ''true'')"

section \<open>Properties of the XML navigation\<close>

lemma arr_index_text: "arr_index ''_text'' = None"
  by (simp add: arr_index_def is_digit_def)

lemma xmlNode_Arr:
  "walk inherited obj path = Some (Arr xs) \<Longrightarrow> xmlNode inherited obj path = Arr xs"
  by (simp add: xmlNode_def get_opt_def js_or_def arr_index_text)

lemma xmlNode_absent:
  "walk inherited obj path = None \<Longrightarrow> xmlNode inherited obj path = Undefined"
  by (simp add: xmlNode_def)

lemma xmlNode_Obj:
  "walk inherited obj path = Some (Obj kvs) \<Longrightarrow>
   xmlNode inherited obj path = js_or (get_prop (Obj kvs) ''_text'') (Obj kvs)"
  by (simp add: xmlNode_def get_opt_def)

lemma xmlNode_Function:
  "walk inherited obj path = Some (Function f) \<Longrightarrow> xmlNode inherited obj path = Function f"
  by (simp add: xmlNode_def get_opt_def js_or_def)

lemma walk_append:
  "walk inherited obj (path @ [k]) =
     (case walk inherited obj path of None \<Rightarrow> None | Some v \<Rightarrow> walk inherited v [k])"
  by (induction path arbitrary: obj) simp_all

lemma xmlArray_of_result: "xmlArray inherited (Arr ys) [] = ys"
proof -
  have "walk inherited (Arr ys) [] = Some (Arr ys)" by simp
  then show ?thesis by (simp add: xmlArray_def xmlNode_Arr del: walk.simps)
qed

text \<open>
  C4, as the source has it, for whatever members the runtime lets values inherit.
  A path segment names an own property of the value reached or, failing that, a member
  it inherits. A path that is absent (the traversal stops: the value reached is not an
  object, or has neither a property nor an inherited member of the segment's name)
  gives the empty sequence, and a path that resolves to a list gives that list
  unchanged. A path that resolves to one element gives the element's \<open>_text\<close> when that
  is truthy and the element itself otherwise, as a one-element sequence, unless the
  \<open>_text\<close> is itself a list (an element with several text nodes), which is then returned
  as it is. A path that ends at an inherited function gives the one-element sequence
  of that function, even though the tree has no element of that name. The function
  reads its arguments only and changes nothing, so two calls on the same tree and path
  give the same sequence; and coercing a result once more gives the result again.
\<close>

theorem xmlArray_cardinality:
  "(walk inherited obj path = None \<longrightarrow> xmlArray inherited obj path = []) \<and>
   (walk inherited obj path = Some v \<and>
    (\<not> truthy v \<or> \<not> typeof_object v \<or> (\<not> has_own k v \<and> inherited v k = None)) \<longrightarrow>
      xmlArray inherited obj (path @ [k]) = []) \<and>
   (walk inherited obj path = Some (Arr xs) \<longrightarrow>
      xmlArray inherited obj path = xs \<and> length (xmlArray inherited obj path) = length xs) \<and>
   (walk inherited obj path = Some (Obj kvs) \<and> \<not> isArray (get_prop (Obj kvs) ''_text'') \<longrightarrow>
      xmlArray inherited obj path =
        [if truthy (get_prop (Obj kvs) ''_text'') then get_prop (Obj kvs) ''_text''
         else Obj kvs] \<and>
      length (xmlArray inherited obj path) = 1) \<and>
   (walk inherited obj path = Some (Obj kvs) \<and> get_prop (Obj kvs) ''_text'' = Arr ts \<longrightarrow>
      xmlArray inherited obj path = ts) \<and>
   (walk inherited obj path = Some v \<and> truthy v \<and> typeof_object v \<and> \<not> has_own k v \<and>
    inherited v k = Some (Function f) \<longrightarrow>
      xmlArray inherited obj (path @ [k]) = [Function f]) \<and>
   xmlArray inherited (Arr (xmlArray inherited obj path)) [] = xmlArray inherited obj path"
proof -
  have absent: "walk inherited obj path = None \<longrightarrow> xmlArray inherited obj path = []"
    by (simp add: xmlArray_def xmlNode_absent)
  have stops: "walk inherited obj path = Some v \<and>
    (\<not> truthy v \<or> \<not> typeof_object v \<or> (\<not> has_own k v \<and> inherited v k = None)) \<longrightarrow>
      xmlArray inherited obj (path @ [k]) = []"
  proof
    assume h: "walk inherited obj path = Some v \<and>
      (\<not> truthy v \<or> \<not> typeof_object v \<or> (\<not> has_own k v \<and> inherited v k = None))"
    then have "walk inherited v [k] = None"
      by (auto simp: has_in_def)
    with h have "walk inherited obj (path @ [k]) = None"
      by (simp add: walk_append del: walk.simps)
    then show "xmlArray inherited obj (path @ [k]) = []"
      by (simp add: xmlArray_def xmlNode_absent del: walk.simps)
  qed
  have repeated: "walk inherited obj path = Some (Arr xs) \<longrightarrow>
      xmlArray inherited obj path = xs \<and> length (xmlArray inherited obj path) = length xs"
    by (simp add: xmlArray_def xmlNode_Arr)
  have single: "walk inherited obj path = Some (Obj kvs) \<and>
      \<not> isArray (get_prop (Obj kvs) ''_text'') \<longrightarrow>
      xmlArray inherited obj path =
        [if truthy (get_prop (Obj kvs) ''_text'') then get_prop (Obj kvs) ''_text''
         else Obj kvs] \<and>
      length (xmlArray inherited obj path) = 1"
  proof (cases "get_prop (Obj kvs) ''_text''")
    case (Arr ys)
    then show ?thesis by simp
  qed (auto simp: xmlArray_def xmlNode_Obj js_or_def Let_def)
  have mixed: "walk inherited obj path = Some (Obj kvs) \<and>
      get_prop (Obj kvs) ''_text'' = Arr ts \<longrightarrow> xmlArray inherited obj path = ts"
    by (auto simp: xmlArray_def xmlNode_Obj js_or_def Let_def)
  have member: "walk inherited obj path = Some v \<and> truthy v \<and> typeof_object v \<and>
      \<not> has_own k v \<and> inherited v k = Some (Function f) \<longrightarrow>
      xmlArray inherited obj (path @ [k]) = [Function f]"
  proof
    assume h: "walk inherited obj path = Some v \<and> truthy v \<and> typeof_object v \<and>
      \<not> has_own k v \<and> inherited v k = Some (Function f)"
    then have "walk inherited v [k] = Some (Function f)"
      by (simp add: has_in_def get_member_def)
    with h have "walk inherited obj (path @ [k]) = Some (Function f)"
      by (simp add: walk_append del: walk.simps)
    then show "xmlArray inherited obj (path @ [k]) = [Function f]"
      by (simp add: xmlArray_def xmlNode_Function del: walk.simps)
  qed
  have again: "xmlArray inherited (Arr (xmlArray inherited obj path)) [] =
      xmlArray inherited obj path"
    by (rule xmlArray_of_result)
  from absent stops repeated single mixed member again show ?thesis by blast
qed

lemma walk_sample_root:
  "walk sample_prototypes sample_tree [''root''] =
     Some (Obj [(''item'', Arr [Obj [(''_text'', Str ''a'')], Obj [(''_text'', Str ''b'')],
                               Obj [(''_text'', Str ''c'')]]),
                (''name'', Obj [(''_attributes'', Obj [(''id'', Str ''7'')])])])"
  by (simp add: sample_tree_def has_in_def get_member_def)

lemma walk_sample_item:
  "walk sample_prototypes sample_tree [''root'', ''item''] =
     Some (Arr [Obj [(''_text'', Str ''a'')], Obj [(''_text'', Str ''b'')],
                Obj [(''_text'', Str ''c'')]])"
  by (simp add: sample_tree_def has_in_def get_member_def)

lemma walk_sample_name:
  "walk sample_prototypes sample_tree [''root'', ''name''] =
     Some (Obj [(''_attributes'', Obj [(''id'', Str ''7'')])])"
  by (simp add: sample_tree_def has_in_def get_member_def)

theorem xmlArray_cardinality_witness:
  "length (xmlArray sample_prototypes sample_tree [''root'', ''item'']) = 3 \<and>
   xmlArray sample_prototypes sample_tree [''root'', ''name''] =
     [Obj [(''_attributes'', Obj [(''id'', Str ''7'')])]] \<and>
   xmlArray sample_prototypes sample_tree [''root'', ''other''] = [] \<and>
   xmlArray sample_prototypes sample_tree [''root'', ''toString''] =
     [Function ''function toString() { [native code] }'']"
proof -
  let ?root = "Obj [(''item'', Arr [Obj [(''_text'', Str ''a'')], Obj [(''_text'', Str ''b'')],
                                   Obj [(''_text'', Str ''c'')]]),
                    (''name'', Obj [(''_attributes'', Obj [(''id'', Str ''7'')])])]"
  have "length (xmlArray sample_prototypes sample_tree [''root'', ''item'']) = 3"
    using xmlArray_cardinality [of sample_prototypes sample_tree "[''root'', ''item'']" Undefined "[]"
          "[Obj [(''_text'', Str ''a'')], Obj [(''_text'', Str ''b'')], Obj [(''_text'', Str ''c'')]]"
          "[]" "[]" "[]"]
    by (simp add: walk_sample_item del: walk.simps)
  moreover have "xmlArray sample_prototypes sample_tree [''root'', ''name''] =
      [Obj [(''_attributes'', Obj [(''id'', Str ''7'')])]]"
    using xmlArray_cardinality [of sample_prototypes sample_tree "[''root'', ''name'']" Undefined "[]"
          "[]" "[(''_attributes'', Obj [(''id'', Str ''7'')])]" "[]" "[]"]
    by (simp add: walk_sample_name del: walk.simps)
  moreover have "xmlArray sample_prototypes sample_tree [''root'', ''other''] = []"
    using xmlArray_cardinality [of sample_prototypes sample_tree "[''root'']" ?root "''other''"
          "[]" "[]" "[]" "[]"]
    by (simp add: walk_sample_root sample_prototypes_def del: walk.simps)
  moreover have "xmlArray sample_prototypes sample_tree [''root'', ''toString''] =
      [Function ''function toString() { [native code] }'']"
    using xmlArray_cardinality [of sample_prototypes sample_tree "[''root'']" ?root "''toString''"
          "[]" "[]" "[]" "''function toString() { [native code] }''"]
    by (simp add: walk_sample_root sample_prototypes_def del: walk.simps)
  ultimately show ?thesis by simp
qed

theorem xmlArray_single_counterexample:
  "walk sample_prototypes mixed_tree [''a''] =
     Some (Obj [(''_text'', Arr [Str ''foo'', Str ''bar'']), (''b'', Obj [])]) \<and>
   xmlArray sample_prototypes mixed_tree [''a''] = [Str ''foo'', Str ''bar''] \<and>
   length (xmlArray sample_prototypes mixed_tree [''a'']) \<noteq> 1 \<and>
   \<not> has_own ''constructor'' (Obj []) \<and>
   xmlArray sample_prototypes (Obj [(''a'', Obj [])]) [''a'', ''constructor''] =
     [Function ''function Object() { [native code] }'']"
  by (simp add: mixed_tree_def xmlArray_def xmlNode_def get_opt_def js_or_def has_in_def
      get_member_def sample_prototypes_def)

section \<open>Properties of the transformation dispatch\<close>

text \<open>
  C2. With a transformer supplied and raw mode off, when the XML parser throws, or
  the transformer throws on the parsed tree, or the serialisation of its result throws,
  \<open>return_response\<close> returns (it does not throw) the envelope with
  \<open>isError: false\<close> whose text is the untransformed response body.
\<close>

theorem return_response_fallback:
  assumes raw_off: "env ''RETURN_RAW_XML'' \<noteq> Some ''true''"
    and throws: "fullParse xml2js (rsp_data response) = Inl e
       \<or> (\<exists>parsed. fullParse xml2js (rsp_data response) = Inr parsed \<and> transformer parsed = Inl e)
       \<or> (\<exists>parsed transformed. fullParse xml2js (rsp_data response) = Inr parsed \<and>
             transformer parsed = Inr transformed \<and> stringify transformed = Inl e)"
  shows "return_response env xml2js stringify response (Some transformer) =
           Inr \<lparr>isError = False,
                content = [\<lparr>item_type = ''text'', item_text = rsp_data response\<rparr>]\<rparr>"
proof -
  have "then_do (then_do (fullParse xml2js (rsp_data response)) transformer) stringify = Inl e"
    using throws by (auto simp: then_do_def)
  with raw_off show ?thesis
    by (simp add: return_response_def text_envelope_def)
qed

theorem return_response_fallback_witness:
  "return_response Map.empty failing_parser Inr plain_response (Some failing_transformer) =
     Inr \<lparr>isError = False, content = [\<lparr>item_type = ''text'', item_text = Str ''not xml''\<rparr>]\<rparr> \<and>
   return_response Map.empty Inr Inr plain_response (Some failing_transformer) =
     Inr \<lparr>isError = False, content = [\<lparr>item_type = ''text'', item_text = Str ''not xml''\<rparr>]\<rparr>"
proof -
  have off: "Map.empty ''RETURN_RAW_XML'' \<noteq> Some ''true''" by simp
  have a: "fullParse failing_parser (rsp_data plain_response) = Inl (Error ''Text data outside of root node.'')
       \<or> (\<exists>parsed. fullParse failing_parser (rsp_data plain_response) = Inr parsed \<and>
             failing_transformer parsed = Inl (Error ''Text data outside of root node.''))
       \<or> (\<exists>parsed transformed. fullParse failing_parser (rsp_data plain_response) = Inr parsed \<and>
             failing_transformer parsed = Inr transformed \<and>
             Inr transformed = Inl (Error ''Text data outside of root node.''))"
    by (simp add: fullParse_def failing_parser_def)
  have b: "fullParse Inr (rsp_data plain_response) = Inl (TypeError ''Cannot read properties of undefined'')
       \<or> (\<exists>parsed. fullParse Inr (rsp_data plain_response) = Inr parsed \<and>
             failing_transformer parsed = Inl (TypeError ''Cannot read properties of undefined''))
       \<or> (\<exists>parsed transformed. fullParse Inr (rsp_data plain_response) = Inr parsed \<and>
             failing_transformer parsed = Inr transformed \<and>
             Inr transformed = Inl (TypeError ''Cannot read properties of undefined''))"
    by (simp add: fullParse_def failing_transformer_def)
  show ?thesis
    using return_response_fallback [where env = Map.empty and xml2js = failing_parser
            and response = plain_response and transformer = failing_transformer
            and stringify = Inr, OF off a]
          return_response_fallback [where env = Map.empty and xml2js = Inr
            and response = plain_response and transformer = failing_transformer
            and stringify = Inr, OF off b]
    by (simp add: plain_response_def)
qed

lemma getConfig_flag: "getConfig (env(''RETURN_RAW_XML'' := flag)) = getConfig env"
  by (simp add: getConfig_def)

lemma load_config_flag: "load_config (env(''RETURN_RAW_XML'' := flag)) s = load_config env s"
  by (simp only: load_config_def getConfig_flag)

lemma getAuthHeaders_flag:
  "getAuthHeaders (env(''RETURN_RAW_XML'' := flag)) s = getAuthHeaders env s"
  by (simp only: getAuthHeaders_def load_config_flag)

lemma getBaseUrl_flag:
  "getBaseUrl parseURL (env(''RETURN_RAW_XML'' := flag)) s = getBaseUrl parseURL env s"
  by (simp only: getBaseUrl_def load_config_flag)

lemma fetchCsrfToken_flag:
  "fetchCsrfToken srv (env(''RETURN_RAW_XML'' := flag)) s u = fetchCsrfToken srv env s u"
  by (simp only: fetchCsrfToken_def getAuthHeaders_flag)

lemma prepare_flag:
  "prepare srv (env(''RETURN_RAW_XML'' := flag)) s u method timeout data params =
   prepare srv env s u method timeout data params"
  by (simp only: prepare_def getAuthHeaders_flag fetchCsrfToken_flag)

lemma attempt_flag:
  "attempt srv (env(''RETURN_RAW_XML'' := flag)) s u request = attempt srv env s u request"
  by (simp only: attempt_def fetchCsrfToken_flag)

lemma makeAdtRequest_flag:
  "makeAdtRequest srv (env(''RETURN_RAW_XML'' := flag)) s u method timeout data params =
   makeAdtRequest srv env s u method timeout data params"
  by (simp only: makeAdtRequest_def prepare_flag attempt_flag)

lemma handleGetCdsView_flag:
  "handleGetCdsView pf srv (env(''RETURN_RAW_XML'' := flag)) s args =
   handleGetCdsView pf srv env s args"
  by (simp only: handleGetCdsView_def getBaseUrl_flag makeAdtRequest_flag)

lemma handleGetCdsView_answer:
  assumes "truthy (get_opt args ''path'')"
    and "getBaseUrl (url_class pf) env s = (Inr base, s1)"
    and "makeAdtRequest srv env s1
           (base @ ''/sap/bc/adt/ddic/ddl/elementinfo?'' @ cds_query pf args)
           ''GET'' 30000 Undefined Undefined = (Inr response, s2)"
  shows "handleGetCdsView pf srv env s args =
           (case then_do
                   (then_do
                      (then_do (fullParse (xml_library pf) (rsp_data response))
                         (\<lambda>raw. get_strict raw ''abapsource:elementInfo''))
                      parseDdicElement)
                   (json_stringify pf) of
              Inl e \<Rightarrow> return_error e
            | Inr t \<Rightarrow> text_envelope t, s2)"
  using assms by (simp add: handleGetCdsView_def split: sum.splits)

lemma handleGetPackage_answer:
  assumes "truthy (get_opt args ''package_name'')"
    and "getBaseUrl (url_class pf) env s = (Inr base, s1)"
    and "makeAdtRequest srv env s1 (base @ ''/sap/bc/adt/repository/nodestructure'')
           ''POST'' 30000 Undefined (nodeContentsParams pf args) = (Inr response, s2)"
  shows "handleGetPackage pf srv env s args =
           (if env ''RETURN_RAW_XML'' = Some ''true'' then text_envelope (rsp_data response)
            else text_envelope
                   (case then_do (then_do (fullParse (xml_library pf) (rsp_data response))
                                    transformPackageInfo) (json_stringify pf) of
                      Inr t \<Rightarrow> t
                    | Inl error \<Rightarrow> rsp_data response), s2)"
  using assms by (simp add: handleGetPackage_def return_response_def split: sum.splits)

lemma parseDDICProps_Undefined:
  "parseDDICProps Undefined = Inr \<lparr>elementProps = None, annotations = []\<rparr>"
  by (simp add: parseDDICProps_def xmlArray_def xmlNode_def then_do_def
        element_props_of_def rawanno_of_def Let_def)

lemma parseDdicElement_cds:
  "parseDdicElement (get_prop cds_tree ''abapsource:elementInfo'') = Inr cds_element"
  by (simp add: parseDdicElement.simps [of "Obj kvs" for kvs] cds_tree_def cds_element_def
        get_strict_def get_opt_def parseDDICProps_Undefined xmlArray_def xmlNode_def
        has_in_def no_inherited_def)

lemma getBaseUrl_sample_flag:
  "getBaseUrl sample_parseURL raw_env fresh_session =
     (Inr ''https://sap.example.com:8000'', fresh_session\<lparr>config := Some sample_config\<rparr>)"
  by (simp add: raw_env_def getBaseUrl_def load_config_def getConfig_def blank_def sample_env_def
        fresh_session_def sample_config_def sample_parseURL_def)


lemma makeAdtRequest_package_sample:
  "fst (makeAdtRequest error_token_server raw_env (fresh_session\<lparr>config := Some sample_config\<rparr>)
          u ''POST'' 30000 Undefined params) = Inr ok_response"
  by (simp add: makeAdtRequest_def prepare_def attempt_def fetchCsrfToken_def fetch_catch_def
        getAuthHeaders_def load_config_def send_def createAxiosInstance_def store_cookies_def
        token_fetch_request_def mutating_def blank_def error_token_server_def
        error_token_response_def fresh_session_def)

lemma makeAdtRequest_cds_sample:
  "fst (makeAdtRequest cds_server raw_env (fresh_session\<lparr>config := Some sample_config\<rparr>)
          u ''GET'' 30000 Undefined Undefined) = Inr cds_response"
  by (simp add: makeAdtRequest_def prepare_def attempt_def getAuthHeaders_def load_config_def
        send_def createAxiosInstance_def mutating_def blank_def cds_server_def fresh_session_def)

lemma cds_text_differs: "Str cds_json \<noteq> rsp_data cds_response"
  by (simp add: cds_json_def cds_response_def cds_xml_def)

text \<open>
  C8. An operation that answers through \<open>return_response\<close> with a transformer is in raw
  mode exactly when \<open>RETURN_RAW_XML\<close> is the string \<open>true\<close>: then the text is the
  response body as it is, whatever the parser and the transformer would do; for an
  absent flag or any other value the text is the serialised transformer result (the
  body only as the fallback of C2). Without a transformer the body is always returned
  as it is. So it is for the package operation \<open>handleGetPackage\<close> once its request has
  succeeded. The CDS view operation \<open>handleGetCdsView\<close> does not go through
  \<open>return_response\<close>: its answer is the same whatever the flag is, and after a
  successful request it is the serialised element that \<open>parseDdicElement\<close> gives, or
  the error envelope when parsing or serialising throws, and not the body as such.
\<close>

theorem raw_mode_flag:
  "(env ''RETURN_RAW_XML'' = Some ''true'' \<longrightarrow>
      return_response env xml2js stringify response (Some transformer) =
        Inr (text_envelope (rsp_data response))) \<and>
   (env ''RETURN_RAW_XML'' \<noteq> Some ''true'' \<longrightarrow>
      return_response env xml2js stringify response (Some transformer) =
        Inr (text_envelope
               (case then_do (then_do (fullParse xml2js (rsp_data response)) transformer) stringify of
                  Inr s \<Rightarrow> s
                | Inl error \<Rightarrow> rsp_data response))) \<and>
   return_response env xml2js stringify response None = Inr (text_envelope (rsp_data response)) \<and>
   (truthy (get_opt args ''package_name'') \<and>
    getBaseUrl (url_class pf) env s = (Inr base, s1) \<and>
    makeAdtRequest srv env s1 (base @ ''/sap/bc/adt/repository/nodestructure'')
      ''POST'' 30000 Undefined (nodeContentsParams pf args) = (Inr answer, s2) \<longrightarrow>
      handleGetPackage pf srv env s args =
        (if env ''RETURN_RAW_XML'' = Some ''true'' then text_envelope (rsp_data answer)
         else text_envelope
                (case then_do (then_do (fullParse (xml_library pf) (rsp_data answer))
                                 transformPackageInfo) (json_stringify pf) of
                   Inr t \<Rightarrow> t
                 | Inl error \<Rightarrow> rsp_data answer), s2)) \<and>
   handleGetCdsView cf srv (env(''RETURN_RAW_XML'' := flag)) s args =
     handleGetCdsView cf srv env s args \<and>
   (truthy (get_opt args ''path'') \<and>
    getBaseUrl (url_class cf) env s = (Inr base, s1) \<and>
    makeAdtRequest srv env s1 (base @ ''/sap/bc/adt/ddic/ddl/elementinfo?'' @ cds_query cf args)
      ''GET'' 30000 Undefined Undefined = (Inr answer, s2) \<longrightarrow>
      handleGetCdsView cf srv env s args =
        (case then_do
                (then_do
                   (then_do (fullParse (xml_library cf) (rsp_data answer))
                      (\<lambda>raw. get_strict raw ''abapsource:elementInfo''))
                   parseDdicElement)
                (json_stringify cf) of
           Inl e \<Rightarrow> return_error e
         | Inr t \<Rightarrow> text_envelope t, s2))"
proof -
  have dispatch: "env ''RETURN_RAW_XML'' = Some ''true'' \<longrightarrow>
      return_response env xml2js stringify response (Some transformer) =
        Inr (text_envelope (rsp_data response))"
    by (simp add: return_response_def)
  have transformed: "env ''RETURN_RAW_XML'' \<noteq> Some ''true'' \<longrightarrow>
      return_response env xml2js stringify response (Some transformer) =
        Inr (text_envelope
               (case then_do (then_do (fullParse xml2js (rsp_data response)) transformer) stringify of
                  Inr s \<Rightarrow> s
                | Inl error \<Rightarrow> rsp_data response))"
    by (simp add: return_response_def split: sum.splits)
  have plain: "return_response env xml2js stringify response None =
      Inr (text_envelope (rsp_data response))"
    by (simp add: return_response_def)
  show ?thesis
    using dispatch transformed plain
      handleGetPackage_answer [of args pf env s base s1 srv answer s2]
      handleGetCdsView_flag [of cf srv env flag s args]
      handleGetCdsView_answer [of args cf env s base s1 srv answer s2]
    by blast
qed

theorem raw_mode_flag_witness:
  "return_response [''RETURN_RAW_XML'' \<mapsto> ''true''] Inr flat_stringify plain_response
       (Some tagging_transformer) = Inr (text_envelope (Str ''not xml'')) \<and>
   return_response [''RETURN_RAW_XML'' \<mapsto> ''TRUE''] Inr flat_stringify plain_response
       (Some tagging_transformer) = Inr (text_envelope (Str ''{...}'')) \<and>
   return_response Map.empty Inr flat_stringify plain_response
       (Some tagging_transformer) = Inr (text_envelope (Str ''{...}'')) \<and>
   fst (handleGetPackage package_platform error_token_server raw_env fresh_session
          (Obj [(''package_name'', Str ''ZPKG'')])) = text_envelope (Str ''<ok/>'') \<and>
   handleGetCdsView cds_platform cds_server raw_env fresh_session (Obj [(''path'', Str ''ZVIEW'')]) =
     handleGetCdsView cds_platform cds_server sample_env fresh_session (Obj [(''path'', Str ''ZVIEW'')])"
proof -
  obtain s2 where package:
    "makeAdtRequest error_token_server raw_env (fresh_session\<lparr>config := Some sample_config\<rparr>)
       (''https://sap.example.com:8000'' @ ''/sap/bc/adt/repository/nodestructure'') ''POST'' 30000
       Undefined (nodeContentsParams package_platform (Obj [(''package_name'', Str ''ZPKG'')])) =
     (Inr ok_response, s2)"
    using makeAdtRequest_package_sample
      [of "''https://sap.example.com:8000'' @ ''/sap/bc/adt/repository/nodestructure''"
          "nodeContentsParams package_platform (Obj [(''package_name'', Str ''ZPKG'')])"]
    by (cases "makeAdtRequest error_token_server raw_env
                 (fresh_session\<lparr>config := Some sample_config\<rparr>)
                 (''https://sap.example.com:8000'' @ ''/sap/bc/adt/repository/nodestructure'')
                 ''POST'' 30000 Undefined
                 (nodeContentsParams package_platform (Obj [(''package_name'', Str ''ZPKG'')]))")
       simp
  have base: "getBaseUrl (url_class package_platform) raw_env fresh_session =
      (Inr ''https://sap.example.com:8000'', fresh_session\<lparr>config := Some sample_config\<rparr>)"
    using getBaseUrl_sample_flag by (simp add: package_platform_def)
  have name: "truthy (get_opt (Obj [(''package_name'', Str ''ZPKG'')]) ''package_name'')"
    by (simp add: get_opt_def)
  have raw: "raw_env ''RETURN_RAW_XML'' = Some ''true''"
    by (simp add: raw_env_def)
  have four: "fst (handleGetPackage package_platform error_token_server raw_env fresh_session
          (Obj [(''package_name'', Str ''ZPKG'')])) = text_envelope (Str ''<ok/>'')"
    using raw_mode_flag [where env = raw_env and pf = package_platform
            and srv = error_token_server and s = fresh_session
            and args = "Obj [(''package_name'', Str ''ZPKG'')]"
            and base = "''https://sap.example.com:8000''"
            and ?s1.0 = "fresh_session\<lparr>config := Some sample_config\<rparr>"
            and answer = ok_response and ?s2.0 = s2
            and xml2js = Inr and stringify = Inr and response = ok_response
            and transformer = Inr and cf = cds_platform and flag = None]
          package base name raw
    by (simp add: ok_response_def)
  have five: "handleGetCdsView cds_platform cds_server raw_env fresh_session (Obj [(''path'', Str ''ZVIEW'')]) =
     handleGetCdsView cds_platform cds_server sample_env fresh_session (Obj [(''path'', Str ''ZVIEW'')])"
    using raw_mode_flag [where env = sample_env and cf = cds_platform and srv = cds_server
            and s = fresh_session and args = "Obj [(''path'', Str ''ZVIEW'')]"
            and flag = "Some ''true''"
            and xml2js = Inr and stringify = Inr and response = ok_response
            and transformer = Inr and pf = package_platform
            and base = "[]" and ?s1.0 = fresh_session and answer = ok_response
            and ?s2.0 = fresh_session]
    by (simp add: raw_env_def)
  show ?thesis
    using raw_mode_flag [of "[''RETURN_RAW_XML'' \<mapsto> ''true'']" Inr flat_stringify plain_response tagging_transformer]
        raw_mode_flag [of "[''RETURN_RAW_XML'' \<mapsto> ''TRUE'']" Inr flat_stringify plain_response tagging_transformer]
        raw_mode_flag [of Map.empty Inr flat_stringify plain_response tagging_transformer]
        four five
    by (simp add: plain_response_def fullParse_def then_do_def tagging_transformer_def flat_stringify_def)
qed

text \<open>
  With the flag set to \<open>true\<close>, the CDS view operation on the view \<open>ZVIEW\<close> answers
  with the serialised element, which is not the body the remote system sent.
\<close>

theorem raw_mode_counterexample:
  "raw_env ''RETURN_RAW_XML'' = Some ''true'' \<and>
   (\<forall>history request. cds_server history request = Resolved cds_response) \<and>
   fst (handleGetCdsView cds_platform cds_server raw_env fresh_session
          (Obj [(''path'', Str ''ZVIEW'')])) = text_envelope (Str cds_json) \<and>
   text_envelope (Str cds_json) \<noteq> text_envelope (rsp_data cds_response)"
proof -
  let ?u = "''https://sap.example.com:8000'' @ ''/sap/bc/adt/ddic/ddl/elementinfo?'' @
            cds_query cds_platform (Obj [(''path'', Str ''ZVIEW'')])"
  obtain s2 where request:
    "makeAdtRequest cds_server raw_env (fresh_session\<lparr>config := Some sample_config\<rparr>) ?u
       ''GET'' 30000 Undefined Undefined = (Inr cds_response, s2)"
    using makeAdtRequest_cds_sample [of ?u]
    by (cases "makeAdtRequest cds_server raw_env (fresh_session\<lparr>config := Some sample_config\<rparr>)
                 ?u ''GET'' 30000 Undefined Undefined") simp
  have base: "getBaseUrl (url_class cds_platform) raw_env fresh_session =
      (Inr ''https://sap.example.com:8000'', fresh_session\<lparr>config := Some sample_config\<rparr>)"
    using getBaseUrl_sample_flag by (simp add: cds_platform_def)
  have path: "truthy (get_opt (Obj [(''path'', Str ''ZVIEW'')]) ''path'')"
    by (simp add: get_opt_def)
  have parsed: "then_do
          (then_do
             (then_do (fullParse (xml_library cds_platform) (rsp_data cds_response))
                (\<lambda>raw. get_strict raw ''abapsource:elementInfo''))
             parseDdicElement)
          (json_stringify cds_platform) = Inr (Str cds_json)"
    using parseDdicElement_cds
    by (simp add: then_do_def fullParse_def cds_platform_def sample_xml2js_def cds_response_def
          get_strict_def cds_tree_def)
  have "handleGetCdsView cds_platform cds_server raw_env fresh_session
          (Obj [(''path'', Str ''ZVIEW'')]) = (text_envelope (Str cds_json), s2)"
    using handleGetCdsView_answer [OF path base request] by (simp add: parsed)
  then show ?thesis
    using cds_text_differs by (simp add: raw_env_def cds_server_def text_envelope_def)
qed

section \<open>Properties of the package-info transformer\<close>

lemma has_name_and_uri_object:
  "\<not> nullish node \<Longrightarrow> has_name_and_uri node = Inr (keeps_entry node)"
  by (simp add: has_name_and_uri_def keeps_entry_def get_strict_def then_do_def)

lemma filter_nodes_objects:
  "\<forall>n \<in> set nodes. \<not> nullish n \<Longrightarrow> filter_nodes nodes = Inr (filter keeps_entry nodes)"
  by (induction nodes) (simp_all add: has_name_and_uri_object)

lemma truthy_get_opt_not_nullish: "truthy (get_opt v k) \<Longrightarrow> \<not> nullish v"
  by (auto simp: get_opt_def)

lemma to_package_object_shape:
  assumes "\<not> nullish node" and "keeps_entry node" and "typed_entry node"
  shows "to_package_object node = Inr (record_shape node)"
proof -
  have name: "\<not> nullish (get_prop node ''OBJECT_NAME'')"
    using assms(2) by (auto simp: keeps_entry_def dest: truthy_get_opt_not_nullish)
  have uri: "\<not> nullish (get_prop node ''OBJECT_URI'')"
    using assms(2) by (auto simp: keeps_entry_def dest: truthy_get_opt_not_nullish)
  have ty: "\<not> nullish (get_prop node ''OBJECT_TYPE'')"
    using assms(3) by (simp add: typed_entry_def)
  show ?thesis
    using assms(1) name uri ty
    by (simp add: to_package_object_def record_shape_def get_strict_def then_do_def)
qed

lemma map_nodes_shape:
  "\<forall>n \<in> set nodes. \<not> nullish n \<and> keeps_entry n \<and> typed_entry n \<Longrightarrow>
   map_nodes nodes = Inr (map record_shape nodes)"
  by (induction nodes) (simp_all add: to_package_object_shape)

text \<open>
  C6, as the source has it. On a package tree whose node entries are objects and in
  which every entry with both a name text and a URI text has a type child, the
  transformer keeps exactly the entries that have both a name text and a URI text (an
  entry lacking either is dropped), maps the kept entries, in order, to the record
  shape \<open>OBJECT_TYPE\<close>, \<open>OBJECT_NAME\<close>, \<open>OBJECT_DESCRIPTION\<close>, \<open>OBJECT_URI\<close>, and
  sets \<open>totalObjects\<close> to the number of kept entries.
\<close>

theorem transformPackageInfo_filters:
  assumes nodes: "package_nodes parsed = Inr nodes"
    and objects: "\<forall>n \<in> set nodes. \<not> nullish n"
    and typed: "\<forall>n \<in> set nodes. keeps_entry n \<longrightarrow> typed_entry n"
  shows "transformPackageInfo parsed =
           Inr \<lparr>pkg_type = ''package_info'',
                totalObjects = length (filter keeps_entry nodes),
                objects = map record_shape (filter keeps_entry nodes)\<rparr>"
proof -
  have kept: "filter_nodes nodes = Inr (filter keeps_entry nodes)"
    using objects by (rule filter_nodes_objects)
  have "\<forall>n \<in> set (filter keeps_entry nodes). \<not> nullish n \<and> keeps_entry n \<and> typed_entry n"
    using objects typed by simp
  then have mapped: "map_nodes (filter keeps_entry nodes) = Inr (map record_shape (filter keeps_entry nodes))"
    by (rule map_nodes_shape)
  show ?thesis
    by (simp add: transformPackageInfo_def nodes kept mapped then_do_def)
qed

lemma package_nodes_tree: "package_nodes (package_tree nodes) = Inr nodes"
  by (simp add: package_nodes_def package_tree_def get_strict_def get_opt_def then_do_def js_or_def)

text \<open>Three entries, the second without a name text: two objects.\<close>

theorem transformPackageInfo_filters_witness:
  "transformPackageInfo (package_tree [entry_full ''ZCL_A'', entry_without_name, entry_full ''ZCL_B'']) =
     Inr \<lparr>pkg_type = ''package_info'', totalObjects = 2,
          objects = [record_shape (entry_full ''ZCL_A''), record_shape (entry_full ''ZCL_B'')]\<rparr>"
proof -
  let ?nodes = "[entry_full ''ZCL_A'', entry_without_name, entry_full ''ZCL_B'']"
  have objs: "\<forall>n \<in> set ?nodes. \<not> nullish n"
    by (simp add: entry_full_def entry_without_name_def)
  have typed: "\<forall>n \<in> set ?nodes. keeps_entry n \<longrightarrow> typed_entry n"
    by (simp add: entry_full_def entry_without_name_def typed_entry_def text_node_def)
  have keep: "filter keeps_entry ?nodes = [entry_full ''ZCL_A'', entry_full ''ZCL_B'']"
    by (simp add: entry_full_def entry_without_name_def keeps_entry_def text_node_def get_opt_def)
  show ?thesis
    using transformPackageInfo_filters [OF package_nodes_tree objs typed]
    by (simp only: keep) simp
qed

text \<open>
  An entry that has a URI and lacks only the name is dropped, so the dropped entries
  are not only those lacking both; and an entry with a name and a URI and no type child
  is kept by the filter and makes the transformer throw.
\<close>

theorem transformPackageInfo_counterexample:
  "truthy (get_opt (get_prop entry_without_name ''OBJECT_URI'') ''_text'') \<and>
   transformPackageInfo (package_tree [entry_full ''ZCL_A'', entry_without_name, entry_full ''ZCL_B'']) =
     Inr \<lparr>pkg_type = ''package_info'', totalObjects = 2,
          objects = [record_shape (entry_full ''ZCL_A''), record_shape (entry_full ''ZCL_B'')]\<rparr> \<and>
   keeps_entry entry_without_type \<and>
   transformPackageInfo (package_tree [entry_full ''ZCL_A'', entry_without_type]) =
     Inl (TypeError ''Cannot read properties of undefined'')"
  by (simp add: transformPackageInfo_def package_nodes_tree then_do_def has_name_and_uri_def
      to_package_object_def get_strict_def get_opt_def keeps_entry_def record_shape_def
      entry_full_def entry_without_name_def entry_without_type_def text_node_def)

section \<open>Properties of the annotation loop\<close>

lemma length_arr_set:
  "i < 4294967295 \<Longrightarrow> length (arr_set xs i a) = max (length xs) (Suc i)"
  by (auto simp: arr_set_def)

lemma length_arr_set_large: "4294967295 \<le> i \<Longrightarrow> arr_set xs i a = xs"
  by (simp add: arr_set_def)

lemma nth_arr_set:
  "i < 4294967295 \<Longrightarrow> j < length (arr_set xs i a) \<Longrightarrow>
   arr_set xs i a ! j = (if j = i then Some a else if j < length xs then xs ! j else None)"
  by (auto simp: arr_set_def nth_append)

lemma slot_arr_set:
  "i < 4294967295 \<Longrightarrow>
   slot_or_fresh (arr_set xs i a) j = (if j = i then a else slot_or_fresh xs j)"
  by (auto simp: slot_or_fresh_def length_arr_set nth_arr_set)

lemma filled_arr_set:
  "i < 4294967295 \<Longrightarrow> filled (arr_set xs i a) j = (j = i \<or> filled xs j)"
  by (auto simp: filled_def length_arr_set nth_arr_set split: if_splits)

lemma anno_step_no_match: "anno_index (fst kv) = None \<Longrightarrow> anno_step xs kv = xs"
  by (simp add: anno_step_def anno_index_def)

lemma anno_step_match:
  "anno_index (fst kv) = Some (t, i) \<Longrightarrow>
   anno_step xs kv = arr_set xs i (set_field t (slot_or_fresh xs i) (snd kv))"
  by (auto simp: anno_step_def anno_index_def set_field_def Let_def)

lemma slot_anno_step:
  assumes "n < 4294967295"
  shows "slot_or_fresh (anno_step xs kv) n =
     (case anno_index (fst kv) of
        None \<Rightarrow> slot_or_fresh xs n
      | Some (t, i) \<Rightarrow> if i = n then set_field t (slot_or_fresh xs n) (snd kv) else slot_or_fresh xs n)"
proof (cases "anno_index (fst kv)")
  case None
  then show ?thesis by (simp add: anno_step_no_match)
next
  case (Some m)
  obtain t i where m: "m = (t, i)" by (cases m)
  show ?thesis
  proof (cases "i < 4294967295")
    case True
    then show ?thesis using Some m by (simp add: anno_step_match slot_arr_set)
  next
    case False
    then have "i \<noteq> n" using assms by auto
    then show ?thesis using Some m False by (simp add: anno_step_match length_arr_set_large)
  qed
qed

lemma filled_anno_step:
  assumes "n < 4294967295"
  shows "filled (anno_step xs kv) n = (filled xs n \<or> (\<exists>t. anno_index (fst kv) = Some (t, n)))"
proof (cases "anno_index (fst kv)")
  case None
  then show ?thesis by (simp add: anno_step_no_match)
next
  case (Some m)
  obtain t i where m: "m = (t, i)" by (cases m)
  show ?thesis
  proof (cases "i < 4294967295")
    case True
    then show ?thesis using Some m by (auto simp: anno_step_match filled_arr_set)
  next
    case False
    then have "i \<noteq> n" using assms by auto
    then show ?thesis using Some m False by (simp add: anno_step_match length_arr_set_large)
  qed
qed

lemma length_anno_step:
  assumes "length xs \<le> n"
    and "\<forall>t i. anno_index (fst kv) = Some (t, i) \<longrightarrow> i < n"
  shows "length (anno_step xs kv) \<le> n"
proof (cases "anno_index (fst kv)")
  case None
  then show ?thesis using assms by (simp add: anno_step_no_match)
next
  case (Some m)
  obtain t i where m: "m = (t, i)" by (cases m)
  with Some assms have "i < n" by simp
  show ?thesis
  proof (cases "i < 4294967295")
    case True
    then show ?thesis using Some m assms(1) \<open>i < n\<close> by (simp add: anno_step_match length_arr_set)
  next
    case False
    then show ?thesis using Some m assms(1) by (simp add: anno_step_match length_arr_set_large)
  qed
qed

lemma key_set_field: "anno_key (set_field t a v) = (if t = Key then v else anno_key a)"
  by (simp add: set_field_def)

lemma value_set_field: "anno_value (set_field t a v) = (if t = Value then v else anno_value a)"
  by (cases t) (simp_all add: set_field_def)

lemma key_anno_step:
  assumes "n < 4294967295"
  shows "anno_key (slot_or_fresh (anno_step xs kv) n) =
     (if anno_index (fst kv) = Some (Key, n) then snd kv else anno_key (slot_or_fresh xs n))"
proof (cases "anno_index (fst kv)")
  case None
  then show ?thesis by (simp add: slot_anno_step [OF assms])
next
  case (Some m)
  obtain t i where "m = (t, i)" by (cases m)
  with Some show ?thesis by (simp add: slot_anno_step [OF assms] key_set_field)
qed

lemma value_anno_step:
  assumes "n < 4294967295"
  shows "anno_value (slot_or_fresh (anno_step xs kv) n) =
     (if anno_index (fst kv) = Some (Value, n) then snd kv else anno_value (slot_or_fresh xs n))"
proof (cases "anno_index (fst kv)")
  case None
  then show ?thesis by (simp add: slot_anno_step [OF assms])
next
  case (Some m)
  obtain t i where "m = (t, i)" by (cases m)
  with Some show ?thesis by (simp add: slot_anno_step [OF assms] value_set_field)
qed

lemma key_after_loop:
  "n < 4294967295 \<Longrightarrow>
   anno_key (slot_or_fresh (anno_loop acc ra) n) =
     (case last_for Key n ra of Some v \<Rightarrow> v | None \<Rightarrow> anno_key (slot_or_fresh acc n))"
proof (induction ra arbitrary: acc)
  case Nil
  then show ?case by simp
next
  case (Cons kv rest)
  have "anno_key (slot_or_fresh (anno_loop (anno_step acc kv) rest) n) =
     (case last_for Key n rest of Some v \<Rightarrow> v
      | None \<Rightarrow> anno_key (slot_or_fresh (anno_step acc kv) n))"
    using Cons.prems by (rule Cons.IH)
  then show ?case
    by (simp add: key_anno_step [OF Cons.prems] split: option.splits)
qed

lemma value_after_loop:
  "n < 4294967295 \<Longrightarrow>
   anno_value (slot_or_fresh (anno_loop acc ra) n) =
     (case last_for Value n ra of Some v \<Rightarrow> v | None \<Rightarrow> anno_value (slot_or_fresh acc n))"
proof (induction ra arbitrary: acc)
  case Nil
  then show ?case by simp
next
  case (Cons kv rest)
  have "anno_value (slot_or_fresh (anno_loop (anno_step acc kv) rest) n) =
     (case last_for Value n rest of Some v \<Rightarrow> v
      | None \<Rightarrow> anno_value (slot_or_fresh (anno_step acc kv) n))"
    using Cons.prems by (rule Cons.IH)
  then show ?case
    by (simp add: value_anno_step [OF Cons.prems] split: option.splits)
qed

lemma filled_after_loop:
  "n < 4294967295 \<Longrightarrow>
   filled (anno_loop acc ra) n =
     (filled acc n \<or> (\<exists>kv \<in> set ra. \<exists>t. anno_index (fst kv) = Some (t, n)))"
proof (induction ra arbitrary: acc)
  case Nil
  then show ?case by simp
next
  case (Cons kv rest)
  show ?case
    using Cons.IH [OF Cons.prems, of "anno_step acc kv"] Cons.prems
    by (auto simp: filled_anno_step)
qed

lemma length_after_loop:
  "length acc \<le> n \<Longrightarrow>
   \<forall>kv \<in> set ra. \<forall>t i. anno_index (fst kv) = Some (t, i) \<longrightarrow> i < n \<Longrightarrow>
   length (anno_loop acc ra) \<le> n"
proof (induction ra arbitrary: acc)
  case Nil
  then show ?case by simp
next
  case (Cons kv rest)
  have here: "\<forall>t i. anno_index (fst kv) = Some (t, i) \<longrightarrow> i < n"
    using Cons.prems(2) by simp
  have later: "\<forall>kv \<in> set rest. \<forall>t i. anno_index (fst kv) = Some (t, i) \<longrightarrow> i < n"
    using Cons.prems(2) by simp
  have "length (anno_step acc kv) \<le> n"
    using Cons.prems(1) here by (rule length_anno_step)
  then have "length (anno_loop (anno_step acc kv) rest) \<le> n"
    using later by (rule Cons.IH)
  then show ?case by simp
qed

lemma last_for_Some_match:
  "last_for t n ra = Some w \<Longrightarrow> \<exists>kv \<in> set ra. anno_index (fst kv) = Some (t, n)"
  by (induction ra) (auto split: option.splits if_splits)

lemma last_for_unique:
  assumes "distinct (map fst ra)" and "(k, v) \<in> set ra" and "anno_index k = Some (t, n)"
    and "\<forall>kv \<in> set ra. anno_index (fst kv) = Some (t, n) \<longrightarrow> fst kv = k"
  shows "last_for t n ra = Some v"
  using assms
proof (induction ra)
  case Nil
  then show ?case by simp
next
  case (Cons kv rest)
  have dist: "distinct (map fst rest)" and fresh: "fst kv \<notin> fst ` set rest"
    using Cons.prems(1) by simp_all
  have only: "\<forall>kv \<in> set rest. anno_index (fst kv) = Some (t, n) \<longrightarrow> fst kv = k"
    using Cons.prems(4) by simp
  show ?case
  proof (cases "(k, v) \<in> set rest")
    case True
    then have "last_for t n rest = Some v"
      using dist Cons.prems(3) only Cons.IH by blast
    then show ?thesis by simp
  next
    case False
    with Cons.prems(2) have kv: "kv = (k, v)" by simp
    have "last_for t n rest = None"
    proof (rule ccontr)
      assume "last_for t n rest \<noteq> None"
      then obtain w where "last_for t n rest = Some w" by auto
      then obtain kv' where in_rest: "kv' \<in> set rest" and "anno_index (fst kv') = Some (t, n)"
        using last_for_Some_match by blast
      with only have "fst kv' = k" by blast
      with in_rest have "k \<in> fst ` set rest" by force
      with fresh kv show False by simp
    qed
    with kv Cons.prems(3) show ?thesis by simp
  qed
qed

lemma slot_filled:
  "filled xs n \<Longrightarrow> xs ! n = Some (slot_or_fresh xs n)"
  by (auto simp: filled_def slot_or_fresh_def)

lemma anno_eq: "(a::anno) = \<lparr>anno_key = anno_key a, anno_value = anno_value a\<rparr>"
  by simp

lemma pair_at_index:
  assumes dist: "distinct (map fst ra)"
    and key: "(k, v) \<in> set ra" "anno_index k = Some (Key, n)"
    and val: "(k', v') \<in> set ra" "anno_index k' = Some (Value, n)"
    and only_key: "\<forall>kv \<in> set ra. anno_index (fst kv) = Some (Key, n) \<longrightarrow> fst kv = k"
    and only_val: "\<forall>kv \<in> set ra. anno_index (fst kv) = Some (Value, n) \<longrightarrow> fst kv = k'"
    and idx: "n < 4294967295"
  shows "n < length (anno_loop [] ra) \<and>
         anno_loop [] ra ! n = Some \<lparr>anno_key = v, anno_value = v'\<rparr>"
proof -
  have f: "filled (anno_loop [] ra) n"
    using key idx by (subst filled_after_loop) force+
  have k: "anno_key (slot_or_fresh (anno_loop [] ra) n) = v"
    using last_for_unique [OF dist key only_key] idx by (simp add: key_after_loop)
  have w: "anno_value (slot_or_fresh (anno_loop [] ra) n) = v'"
    using last_for_unique [OF dist val only_val] idx by (simp add: value_after_loop)
  have "slot_or_fresh (anno_loop [] ra) n = \<lparr>anno_key = v, anno_value = v'\<rparr>"
    using k w anno_eq [of "slot_or_fresh (anno_loop [] ra) n"] by simp
  with f slot_filled [OF f] show ?thesis by (simp add: filled_def)
qed

lemma obj_set_keys: "fst ` set (obj_set kvs k v) = insert k (fst ` set kvs)"
proof (induction kvs)
  case Nil
  then show ?case by simp
next
  case (Cons a kvs)
  obtain k' v' where "a = (k', v')" by (cases a)
  with Cons show ?case by (cases "k' = k") auto
qed

lemma obj_set_distinct: "distinct (map fst kvs) \<Longrightarrow> distinct (map fst (obj_set kvs k v))"
proof (induction kvs)
  case Nil
  then show ?case by simp
next
  case (Cons a kvs)
  obtain k' v' where a: "a = (k', v')" by (cases a)
  show ?case
  proof (cases "k' = k")
    case True
    with Cons.prems a show ?thesis by simp
  next
    case False
    have "k' \<notin> fst ` set (obj_set kvs k v)"
      using Cons.prems a False by (simp add: obj_set_keys)
    with Cons a False show ?thesis by simp
  qed
qed

lemma obj_set_new: "k \<notin> fst ` set kvs \<Longrightarrow> obj_set kvs k v = kvs @ [(k, v)]"
  by (induction kvs) auto

lemma entry_step_distinct:
  "distinct (map fst prev) \<Longrightarrow> entry_step prev cur = Inr prev' \<Longrightarrow> distinct (map fst prev')"
  by (auto simp: entry_step_def then_do_def get_strict_def Let_def obj_set_distinct
      split: if_splits)

lemma reduce_entries_distinct:
  "distinct (map fst prev) \<Longrightarrow> reduce_entries prev es = Inr converted \<Longrightarrow>
   distinct (map fst converted)"
proof (induction es arbitrary: prev)
  case Nil
  then show ?case by simp
next
  case (Cons cur rest)
  from Cons.prems(2) obtain prev' where step: "entry_step prev cur = Inr prev'"
    and rest: "reduce_entries prev' rest = Inr converted"
    by (auto split: sum.splits)
  from Cons.prems(1) step have "distinct (map fst prev')" by (rule entry_step_distinct)
  then show ?case using rest by (rule Cons.IH)
qed

lemma rawanno_distinct: "distinct (map fst converted) \<Longrightarrow> distinct (map fst (rawanno_of converted))"
  by (simp add: rawanno_of_def distinct_map_filter)

lemma entry_step_xml_entry:
  "fst kv \<noteq> [] \<Longrightarrow> snd kv \<noteq> [] \<Longrightarrow>
   entry_step prev (xml_entry kv) = Inr (obj_set prev (fst kv) (Str (snd kv)))"
  by (simp add: entry_step_def xml_entry_def then_do_def get_strict_def get_opt_def js_or_def)

lemma reduce_entries_xml_entries:
  "\<forall>kv \<in> set kvs. fst kv \<noteq> [] \<and> snd kv \<noteq> [] \<Longrightarrow> distinct (map fst kvs) \<Longrightarrow>
   fst ` set kvs \<inter> fst ` set prev = {} \<Longrightarrow>
   reduce_entries prev (map xml_entry kvs) = Inr (prev @ map as_property kvs)"
proof (induction kvs arbitrary: prev)
  case Nil
  then show ?case by simp
next
  case (Cons kv rest)
  have new: "fst kv \<notin> fst ` set prev" using Cons.prems(3) by auto
  have step: "entry_step prev (xml_entry kv) = Inr (prev @ [as_property kv])"
    using Cons.prems(1) new by (simp add: entry_step_xml_entry obj_set_new as_property_def)
  have "reduce_entries (prev @ [as_property kv]) (map xml_entry rest) =
          Inr ((prev @ [as_property kv]) @ map as_property rest)"
  proof (rule Cons.IH)
    show "\<forall>kv \<in> set rest. fst kv \<noteq> [] \<and> snd kv \<noteq> []" using Cons.prems(1) by simp
    show "distinct (map fst rest)" using Cons.prems(2) by simp
    show "fst ` set rest \<inter> fst ` set (prev @ [as_property kv]) = {}"
      using Cons.prems(2,3) by (auto simp: as_property_def)
  qed
  with step show ?case by simp
qed

lemma xmlArray_property_bag: "xmlArray no_inherited (property_bag es) [''abapsource:entry''] = es"
proof -
  have "walk no_inherited (property_bag es) [''abapsource:entry''] = Some (Arr es)"
    by (simp add: property_bag_def has_in_def get_member_def)
  then show ?thesis by (simp add: xmlArray_def xmlNode_Arr)
qed

lemmas anno_index_eval =
  anno_index_def match_here_def match_type_def is_digit_def toInt_def parseInt10_def
  leading_digits_def strip_sign_def is_space_def digit_val_def

lemma anno_index_example:
  "anno_index ''annotationKey.0'' = Some (Key, 0)"
  "anno_index ''annotationValue.1'' = Some (Value, 1)"
  "anno_index ''annotationValue.0'' = Some (Value, 0)"
  "anno_index ''annotationKey.1'' = Some (Key, 1)"
  by (simp_all add: anno_index_eval)

lemma example_any_order:
  assumes "mset order = mset example_entries"
  shows "parseDDICProps (property_bag (map xml_entry order)) =
           Inr \<lparr>elementProps = None,
                annotations = [Some \<lparr>anno_key = Str ''A'', anno_value = Str ''C''\<rparr>,
                               Some \<lparr>anno_key = Str ''D'', anno_value = Str ''B''\<rparr>]\<rparr>"
proof -
  let ?ra = "map as_property order"
  have set_order: "set order = set example_entries"
    using assms by (rule mset_eq_setD)
  have "mset (map fst order) = mset (map fst example_entries)"
    using assms by (metis mset_map)
  moreover have "distinct (map fst example_entries)"
    by (simp add: example_entries_def)
  ultimately have dist: "distinct (map fst order)"
    by (metis mset_eq_imp_distinct_iff)
  have nonempty: "\<forall>kv \<in> set order. fst kv \<noteq> [] \<and> snd kv \<noteq> []"
    unfolding set_order by (simp add: example_entries_def)
  have converted: "reduce_entries [] (map xml_entry order) = Inr ?ra"
    using reduce_entries_xml_entries [OF nonempty dist, of "[]"] by simp
  have set_ra: "set ?ra = as_property ` set example_entries"
    using set_order by simp
  have no_ddic: "rawanno_of ?ra = ?ra"
    unfolding rawanno_of_def filter_id_conv set_ra
    by (simp add: example_entries_def as_property_def ddic_names_def)
  have no_props: "element_props_of ?ra = None"
  proof -
    have "''ddicDataType'' \<notin> fst ` set ?ra"
      unfolding set_ra by (simp add: example_entries_def as_property_def)
    then have "map_of ?ra ''ddicDataType'' = None"
      by (simp add: map_of_eq_None_iff)
    then show ?thesis by (simp add: element_props_of_def)
  qed
  have dist_ra: "distinct (map fst ?ra)"
    using dist by (simp add: as_property_def comp_def)
  have mem: "(''annotationKey.0'', Str ''A'') \<in> set ?ra" "(''annotationValue.1'', Str ''B'') \<in> set ?ra"
    "(''annotationValue.0'', Str ''C'') \<in> set ?ra" "(''annotationKey.1'', Str ''D'') \<in> set ?ra"
    unfolding set_ra by (simp_all add: example_entries_def as_property_def)
  have only: "\<forall>kv \<in> set ?ra. anno_index (fst kv) = Some (Key, 0) \<longrightarrow> fst kv = ''annotationKey.0''"
    "\<forall>kv \<in> set ?ra. anno_index (fst kv) = Some (Value, 0) \<longrightarrow> fst kv = ''annotationValue.0''"
    "\<forall>kv \<in> set ?ra. anno_index (fst kv) = Some (Key, 1) \<longrightarrow> fst kv = ''annotationKey.1''"
    "\<forall>kv \<in> set ?ra. anno_index (fst kv) = Some (Value, 1) \<longrightarrow> fst kv = ''annotationValue.1''"
    unfolding set_ra by (simp_all add: example_entries_def as_property_def anno_index_example)
  have slot0: "0 < length (anno_loop [] ?ra) \<and>
      anno_loop [] ?ra ! 0 = Some \<lparr>anno_key = Str ''A'', anno_value = Str ''C''\<rparr>"
    using pair_at_index [OF dist_ra mem(1) anno_index_example(1) mem(3) anno_index_example(3) only(1) only(2)]
    by simp
  have slot1: "1 < length (anno_loop [] ?ra) \<and>
      anno_loop [] ?ra ! 1 = Some \<lparr>anno_key = Str ''D'', anno_value = Str ''B''\<rparr>"
    using pair_at_index [OF dist_ra mem(4) anno_index_example(4) mem(2) anno_index_example(2) only(3) only(4)]
    by simp
  have bound: "\<forall>kv \<in> set ?ra. \<forall>t i. anno_index (fst kv) = Some (t, i) \<longrightarrow> i < 2"
    unfolding set_ra by (simp add: example_entries_def as_property_def anno_index_example)
  have "length (anno_loop [] ?ra) \<le> 2"
    using bound by (intro length_after_loop) simp_all
  with slot1 have len: "length (anno_loop [] ?ra) = 2" by simp
  have "anno_loop [] ?ra = [Some \<lparr>anno_key = Str ''A'', anno_value = Str ''C''\<rparr>,
                        Some \<lparr>anno_key = Str ''D'', anno_value = Str ''B''\<rparr>]"
    using slot0 slot1 len by (intro nth_equalityI) (auto simp: less_Suc_eq numeral_2_eq_2)
  then show ?thesis
    by (simp add: parseDDICProps_def xmlArray_property_bag converted then_do_def no_ddic no_props)
qed

text \<open>
  C3. In the property bag read from the entry nodes, let the remaining (non-DDIC)
  entries hold a key \<open>k\<close> that the annotation pattern matches as a key of index \<open>n\<close> and a
  key \<open>k'\<close> that it matches as a value of the same index, these being the only entries
  matched for that index, with \<open>n\<close> an array index. Then slot \<open>n\<close> of the annotations
  pairs the value stored under \<open>k\<close> with the value stored under \<open>k'\<close>, wherever the two
  entries stand in the bag. In particular the entries \<open>annotationKey.0 = A\<close>,
  \<open>annotationValue.1 = B\<close>, \<open>annotationValue.0 = C\<close>, \<open>annotationKey.1 = D\<close>, in any
  order, give the annotations \<open>[{key: A, value: C}, {key: D, value: B}]\<close>.
\<close>

theorem annotations_paired_by_index:
  "(reduce_entries [] (xmlArray no_inherited raw [''abapsource:entry'']) = Inr converted \<and>
    (k, v) \<in> set (rawanno_of converted) \<and> anno_index k = Some (Key, n) \<and>
    (k', v') \<in> set (rawanno_of converted) \<and> anno_index k' = Some (Value, n) \<and>
    (\<forall>kv \<in> set (rawanno_of converted). anno_index (fst kv) = Some (Key, n) \<longrightarrow> fst kv = k) \<and>
    (\<forall>kv \<in> set (rawanno_of converted). anno_index (fst kv) = Some (Value, n) \<longrightarrow> fst kv = k') \<and>
    n < 4294967295 \<longrightarrow>
    (\<exists>props. parseDDICProps raw = Inr props \<and> n < length (annotations props) \<and>
       annotations props ! n = Some \<lparr>anno_key = v, anno_value = v'\<rparr>)) \<and>
   (mset order = mset example_entries \<longrightarrow>
    parseDDICProps (property_bag (map xml_entry order)) =
      Inr \<lparr>elementProps = None,
           annotations = [Some \<lparr>anno_key = Str ''A'', anno_value = Str ''C''\<rparr>,
                          Some \<lparr>anno_key = Str ''D'', anno_value = Str ''B''\<rparr>]\<rparr>)"
proof (intro conjI impI)
  assume h: "reduce_entries [] (xmlArray no_inherited raw [''abapsource:entry'']) = Inr converted \<and>
    (k, v) \<in> set (rawanno_of converted) \<and> anno_index k = Some (Key, n) \<and>
    (k', v') \<in> set (rawanno_of converted) \<and> anno_index k' = Some (Value, n) \<and>
    (\<forall>kv \<in> set (rawanno_of converted). anno_index (fst kv) = Some (Key, n) \<longrightarrow> fst kv = k) \<and>
    (\<forall>kv \<in> set (rawanno_of converted). anno_index (fst kv) = Some (Value, n) \<longrightarrow> fst kv = k') \<and>
    n < 4294967295"
  then have red: "reduce_entries [] (xmlArray no_inherited raw [''abapsource:entry'']) = Inr converted"
    by simp
  have "distinct (map fst ([] :: (string \<times> js) list))" by simp
  then have "distinct (map fst converted)"
    using red by (rule reduce_entries_distinct)
  then have dist: "distinct (map fst (rawanno_of converted))"
    by (rule rawanno_distinct)
  have "n < length (anno_loop [] (rawanno_of converted)) \<and>
        anno_loop [] (rawanno_of converted) ! n = Some \<lparr>anno_key = v, anno_value = v'\<rparr>"
    using h by (intro pair_at_index [OF dist, of k v n k' v']) simp_all
  then show "\<exists>props. parseDDICProps raw = Inr props \<and> n < length (annotations props) \<and>
       annotations props ! n = Some \<lparr>anno_key = v, anno_value = v'\<rparr>"
    by (simp add: parseDDICProps_def red then_do_def)
next
  assume "mset order = mset example_entries"
  then show "parseDDICProps (property_bag (map xml_entry order)) =
      Inr \<lparr>elementProps = None,
           annotations = [Some \<lparr>anno_key = Str ''A'', anno_value = Str ''C''\<rparr>,
                          Some \<lparr>anno_key = Str ''D'', anno_value = Str ''B''\<rparr>]\<rparr>"
    by (rule example_any_order)
qed

lemma sparse_converted:
  "reduce_entries [] (xmlArray no_inherited (property_bag (map xml_entry sparse_entries)) [''abapsource:entry'']) =
     Inr (map as_property sparse_entries)"
proof -
  have "reduce_entries [] (map xml_entry sparse_entries) = Inr ([] @ map as_property sparse_entries)"
    by (rule reduce_entries_xml_entries) (simp_all add: sparse_entries_def)
  then show ?thesis by (simp add: xmlArray_property_bag)
qed

lemma sparse_rawanno:
  "rawanno_of (map as_property sparse_entries) =
     [(''annotationValue.7'', Str ''V''), (''other'', Str ''x''), (''annotationKey.7'', Str ''K'')]"
  by (simp add: rawanno_of_def sparse_entries_def as_property_def ddic_names_def)

lemma anno_index_sparse:
  "anno_index ''annotationValue.7'' = Some (Value, 7)"
  "anno_index ''other'' = None"
  "anno_index ''annotationKey.7'' = Some (Key, 7)"
  by (simp_all add: anno_index_eval)

theorem annotations_paired_by_index_witness:
  "(\<exists>props. parseDDICProps (property_bag (map xml_entry sparse_entries)) = Inr props \<and>
      7 < length (annotations props) \<and>
      annotations props ! 7 = Some \<lparr>anno_key = Str ''K'', anno_value = Str ''V''\<rparr>) \<and>
   parseDDICProps (property_bag (map xml_entry
       [(''annotationKey.1'', ''D''), (''annotationValue.0'', ''C''),
        (''annotationValue.1'', ''B''), (''annotationKey.0'', ''A'')])) =
     Inr \<lparr>elementProps = None,
          annotations = [Some \<lparr>anno_key = Str ''A'', anno_value = Str ''C''\<rparr>,
                         Some \<lparr>anno_key = Str ''D'', anno_value = Str ''B''\<rparr>]\<rparr>"
proof -
  have order: "mset [(''annotationKey.1'', ''D''), (''annotationValue.0'', ''C''),
        (''annotationValue.1'', ''B''), (''annotationKey.0'', ''A'')] = mset example_entries"
    by (simp add: example_entries_def)
  show ?thesis
    using annotations_paired_by_index [of "property_bag (map xml_entry sparse_entries)"
        "map as_property sparse_entries" "''annotationKey.7''" "Str ''K''" 7
        "''annotationValue.7''" "Str ''V''"
        "[(''annotationKey.1'', ''D''), (''annotationValue.0'', ''C''),
          (''annotationValue.1'', ''B''), (''annotationKey.0'', ''A'')]"]
      order
    by (simp add: sparse_converted sparse_rawanno anno_index_sparse)
qed

section \<open>Properties of the DDIC fields\<close>

lemma parseInt10_NaN: "parseInt10 s = NaN \<longleftrightarrow> leading_digits s = []"
  by (simp add: parseInt10_def Let_def)

lemma read_as_length_parse: "read_as_length x (parse_length x)"
  by (auto simp: read_as_length_def parse_length_def parseInt10_NaN)

lemma entry_step_total: "\<not> nullish cur \<Longrightarrow> \<exists>prev'. entry_step prev cur = Inr prev'"
  by (simp add: entry_step_def then_do_def get_strict_def Let_def)

lemma reduce_entries_total:
  "\<forall>cur \<in> set es. \<not> nullish cur \<Longrightarrow> \<exists>converted. reduce_entries prev es = Inr converted"
proof (induction es arbitrary: prev)
  case Nil
  then show ?case by simp
next
  case (Cons cur rest)
  then obtain prev' where "entry_step prev cur = Inr prev'"
    using entry_step_total [of cur prev] by auto
  moreover have "\<exists>converted. reduce_entries prev' rest = Inr converted"
    using Cons by simp
  ultimately show ?case by simp
qed

text \<open>
  C7, as the source has it. Reading a property bag whose entry nodes are objects
  never throws. When the element properties are present, the key flag is true exactly
  when its raw value is the string \<open>true\<close>, and each of the six length and decimals
  fields is \<open>undefined\<close> exactly when its raw value is absent or empty and is otherwise
  the result of \<open>parseInt\<close>: \<open>NaN\<close>, not \<open>undefined\<close>, for a text without a leading integer.
\<close>

theorem ddic_fields_parsed:
  "((\<forall>cur \<in> set (xmlArray no_inherited raw [''abapsource:entry'']). \<not> nullish cur) \<longrightarrow>
      (\<exists>props. parseDDICProps raw = Inr props)) \<and>
   (reduce_entries [] (xmlArray no_inherited raw [''abapsource:entry'']) = Inr converted \<and>
    parseDDICProps raw = Inr props \<and> elementProps props = Some ep \<longrightarrow>
      ddicIsKey ep = (get_prop (Obj converted) ''ddicIsKey'' = Str ''true'') \<and>
      read_as_length (get_prop (Obj converted) ''ddicLength'') (ddicLength ep) \<and>
      read_as_length (get_prop (Obj converted) ''ddicDecimals'') (ddicDecimals ep) \<and>
      read_as_length (get_prop (Obj converted) ''ddicHeadingLength'') (ddicHeadingLength ep) \<and>
      read_as_length (get_prop (Obj converted) ''ddicLabelShortLength'') (ddicLabelShortLength ep) \<and>
      read_as_length (get_prop (Obj converted) ''ddicLabelMediumLength'') (ddicLabelMediumLength ep) \<and>
      read_as_length (get_prop (Obj converted) ''ddicLabelLongLength'') (ddicLabelLongLength ep))"
proof (intro conjI impI)
  assume "\<forall>cur \<in> set (xmlArray no_inherited raw [''abapsource:entry'']). \<not> nullish cur"
  then obtain converted' where "reduce_entries [] (xmlArray no_inherited raw [''abapsource:entry'']) = Inr converted'"
    using reduce_entries_total by blast
  then show "\<exists>props. parseDDICProps raw = Inr props"
    by (simp add: parseDDICProps_def then_do_def)
next
  assume h: "reduce_entries [] (xmlArray no_inherited raw [''abapsource:entry'']) = Inr converted \<and>
    parseDDICProps raw = Inr props \<and> elementProps props = Some ep"
  then have "element_props_of converted = Some ep"
    by (auto simp: parseDDICProps_def then_do_def)
  then have ep: "ep = \<lparr>ddicIsKey = (get_prop (Obj converted) ''ddicIsKey'' = Str ''true''),
                 ddicDataElement = get_prop (Obj converted) ''ddicDataElement'',
                 ddicDataType = get_prop (Obj converted) ''ddicDataType'',
                 ddicLength = parse_length (get_prop (Obj converted) ''ddicLength''),
                 ddicDecimals = parse_length (get_prop (Obj converted) ''ddicDecimals''),
                 ddicHeading = get_prop (Obj converted) ''ddicHeading'',
                 ddicLabelShort = get_prop (Obj converted) ''ddicLabelShort'',
                 ddicLabelMedium = get_prop (Obj converted) ''ddicLabelMedium'',
                 ddicLabelLong = get_prop (Obj converted) ''ddicLabelLong'',
                 ddicHeadingLength = parse_length (get_prop (Obj converted) ''ddicHeadingLength''),
                 ddicLabelShortLength = parse_length (get_prop (Obj converted) ''ddicLabelShortLength''),
                 ddicLabelMediumLength = parse_length (get_prop (Obj converted) ''ddicLabelMediumLength''),
                 ddicLabelLongLength = parse_length (get_prop (Obj converted) ''ddicLabelLongLength''),
                 parentName = get_prop (Obj converted) ''parentName''\<rparr>"
    unfolding element_props_of_def Let_def by (simp split: if_splits)
  show "ddicIsKey ep = (get_prop (Obj converted) ''ddicIsKey'' = Str ''true'')"
    by (subst ep) simp
  show "read_as_length (get_prop (Obj converted) ''ddicLength'') (ddicLength ep)"
    by (subst ep) (simp add: read_as_length_parse)
  show "read_as_length (get_prop (Obj converted) ''ddicDecimals'') (ddicDecimals ep)"
    by (subst ep) (simp add: read_as_length_parse)
  show "read_as_length (get_prop (Obj converted) ''ddicHeadingLength'') (ddicHeadingLength ep)"
    by (subst ep) (simp add: read_as_length_parse)
  show "read_as_length (get_prop (Obj converted) ''ddicLabelShortLength'') (ddicLabelShortLength ep)"
    by (subst ep) (simp add: read_as_length_parse)
  show "read_as_length (get_prop (Obj converted) ''ddicLabelMediumLength'') (ddicLabelMediumLength ep)"
    by (subst ep) (simp add: read_as_length_parse)
  show "read_as_length (get_prop (Obj converted) ''ddicLabelLongLength'') (ddicLabelLongLength ep)"
    by (subst ep) (simp add: read_as_length_parse)
qed

lemmas parse_eval =
  parse_length_def parseInt10_def leading_digits_def strip_sign_def is_space_def is_digit_def
  digit_val_def

lemma field_converted:
  "reduce_entries [] (xmlArray no_inherited (property_bag (map xml_entry field_entries)) [''abapsource:entry'']) =
     Inr (map as_property field_entries)"
proof -
  have "reduce_entries [] (map xml_entry field_entries) = Inr ([] @ map as_property field_entries)"
    by (rule reduce_entries_xml_entries) (simp_all add: field_entries_def)
  then show ?thesis by (simp add: xmlArray_property_bag)
qed

lemma field_parsed:
  "parseDDICProps (property_bag (map xml_entry field_entries)) =
     Inr \<lparr>elementProps = Some field_props, annotations = []\<rparr>"
proof -
  have "parseDDICProps (property_bag (map xml_entry field_entries)) =
          Inr \<lparr>elementProps = element_props_of (map as_property field_entries),
               annotations = anno_loop [] (rawanno_of (map as_property field_entries))\<rparr>"
    by (simp add: parseDDICProps_def field_converted then_do_def)
  then show ?thesis
    by (simp add: element_props_of_def rawanno_of_def ddic_names_def field_entries_def
        as_property_def field_props_def parse_eval)
qed

theorem ddic_fields_parsed_witness:
  "(\<exists>props. parseDDICProps (property_bag (map xml_entry field_entries)) = Inr props) \<and>
   ddicIsKey field_props \<and>
   read_as_length (Str ''10'') (Some (Finite 10)) \<and>
   read_as_length (Str ''x'') (Some NaN) \<and>
   read_as_length Undefined None"
proof -
  have nodes: "\<forall>cur \<in> set (xmlArray no_inherited (property_bag (map xml_entry field_entries)) [''abapsource:entry'']).
      \<not> nullish cur"
    by (simp add: xmlArray_property_bag field_entries_def xml_entry_def)
  show ?thesis
    using ddic_fields_parsed [of "property_bag (map xml_entry field_entries)"
        "map as_property field_entries" "\<lparr>elementProps = Some field_props, annotations = []\<rparr>"
        field_props] nodes
    by (simp add: field_converted field_parsed)
       (simp add: field_entries_def as_property_def field_props_def)
qed

theorem ddic_length_counterexample:
  "parseDDICProps (property_bag (map xml_entry bad_length_entries)) =
     Inr \<lparr>elementProps =
            Some \<lparr>ddicIsKey = False, ddicDataElement = Undefined, ddicDataType = Str ''CHAR'',
                  ddicLength = Some NaN, ddicDecimals = None, ddicHeading = Undefined,
                  ddicLabelShort = Undefined, ddicLabelMedium = Undefined,
                  ddicLabelLong = Undefined, ddicHeadingLength = None,
                  ddicLabelShortLength = None, ddicLabelMediumLength = None,
                  ddicLabelLongLength = None, parentName = Undefined\<rparr>,
          annotations = []\<rparr> \<and>
   Some NaN \<noteq> (None :: jsnum option)"
proof -
  have "reduce_entries [] (map xml_entry bad_length_entries) =
          Inr ([] @ map as_property bad_length_entries)"
    by (rule reduce_entries_xml_entries) (simp_all add: bad_length_entries_def)
  then show ?thesis
    by (simp add: parseDDICProps_def xmlArray_property_bag then_do_def element_props_of_def
        rawanno_of_def ddic_names_def bad_length_entries_def as_property_def parse_eval)
qed

section \<open>Properties of the request executor\<close>

lemma load_config_configured:
  "configured env s c \<Longrightarrow> load_config env s = (Inr c, s\<lparr>config := Some c\<rparr>)"
  by (auto simp: configured_def load_config_def)

lemma load_config_unconfigured:
  "\<not> (\<exists>c. configured env s c) \<Longrightarrow> \<exists>e. load_config env s = (Inl e, s)"
  by (cases "getConfig env") (auto simp: configured_def load_config_def split: option.splits)

lemma getAuthHeaders_configured:
  "configured env s c \<Longrightarrow> getAuthHeaders env s = (Inr (credentials c), s\<lparr>config := Some c\<rparr>)"
  by (simp add: getAuthHeaders_def load_config_configured credentials_def)

lemma getAuthHeaders_unconfigured:
  "\<not> (\<exists>c. configured env s c) \<Longrightarrow> \<exists>e. getAuthHeaders env s = (Inl e, s)"
  using load_config_unconfigured [of env s] by (auto simp: getAuthHeaders_def)

lemma configured_createAxiosInstance:
  "configured env (createAxiosInstance s) c = configured env s c"
  by (simp add: configured_def createAxiosInstance_def)

lemma fetch_catch_plain:
  "fetch_catch (Error m) s = (Inl (Error (''Failed to fetch CSRF token: '' @ m)), s)"
  by (simp add: fetch_catch_def)

lemma fetchCsrfToken_configured:
  assumes "configured env s c"
  shows "fetchCsrfToken srv env s u =
     (case exchange_token (srv (sent s) (token_fetch_request (credentials c) u)) of
        Some (token, r) \<Rightarrow>
          (Inr token,
           store_cookies r (s\<lparr>axiosInstance := True, config := Some c,
                              sent := sent s @ [token_fetch_request (credentials c) u]\<rparr>))
      | None \<Rightarrow>
          (Inl (Error (fetch_failure (srv (sent s) (token_fetch_request (credentials c) u)))),
           s\<lparr>axiosInstance := True, config := Some c,
             sent := sent s @ [token_fetch_request (credentials c) u]\<rparr>))"
proof -
  have "getAuthHeaders env (createAxiosInstance s) =
      (Inr (credentials c), (createAxiosInstance s)\<lparr>config := Some c\<rparr>)"
    using assms by (simp add: getAuthHeaders_configured configured_createAxiosInstance)
  then have auth: "getAuthHeaders env (s\<lparr>axiosInstance := True\<rparr>) =
      (Inr (credentials c), s\<lparr>axiosInstance := True, config := Some c\<rparr>)"
    by (simp add: createAxiosInstance_def)
  show ?thesis
  proof (cases "srv (sent s) (token_fetch_request (credentials c) u)")
    case (Resolved r)
    then show ?thesis
      by (simp add: fetchCsrfToken_def auth send_def createAxiosInstance_def exchange_token_def
          fetch_catch_plain fetch_failure_def store_cookies_def split: option.splits)
  next
    case (Rejected m ro)
    then show ?thesis
      by (cases ro)
         (simp_all add: fetchCsrfToken_def auth send_def createAxiosInstance_def
            exchange_token_def fetch_catch_def fetch_failure_def store_cookies_def
            split: option.splits)
  qed
qed

lemma fetchCsrfToken_unconfigured:
  assumes "\<not> (\<exists>c. configured env s c)"
  shows "\<exists>e. fetchCsrfToken srv env s u = (Inl e, s\<lparr>axiosInstance := True\<rparr>)"
proof -
  have "\<not> (\<exists>c. configured env (createAxiosInstance s) c)"
    using assms by (simp add: configured_createAxiosInstance)
  then obtain e where e: "getAuthHeaders env (createAxiosInstance s) = (Inl e, createAxiosInstance s)"
    using getAuthHeaders_unconfigured by blast
  then have "e = Error missing_variables"
    by (auto simp: getAuthHeaders_def load_config_def getConfig_def
        split: option.splits if_splits sum.splits)
  with e show ?thesis
    by (simp add: fetchCsrfToken_def fetch_catch_plain) (simp add: createAxiosInstance_def)
qed

lemma exchange_token_nonempty: "exchange_token out = Some (token, r) \<Longrightarrow> token \<noteq> []"
  by (auto simp: exchange_token_def blank_def split: outcome.splits option.splits if_splits)

lemma exchange_token_header:
  "exchange_token out = Some (token, r) \<Longrightarrow>
   rsp_csrf_token r = Some token \<and> (out = Resolved r \<or> (\<exists>m. out = Rejected m (Some r)))"
  by (auto simp: exchange_token_def blank_def split: outcome.splits option.splits if_splits)

lemma fetchCsrfToken_sent:
  "\<exists>rest. sent (snd (fetchCsrfToken srv env s u)) = sent s @ rest"
proof (cases "\<exists>c. configured env s c")
  case True
  then obtain c where "configured env s c" by blast
  then show ?thesis
    by (auto simp: fetchCsrfToken_configured store_cookies_def split: option.splits)
next
  case False
  then obtain e where "fetchCsrfToken srv env s u = (Inl e, s\<lparr>axiosInstance := True\<rparr>)"
    using fetchCsrfToken_unconfigured by blast
  then show ?thesis by simp
qed



lemma attempt_sent:
  "\<exists>rest. sent (snd (attempt srv env s u request)) = sent s @ request # rest"
proof (cases "srv (sent s) request")
  case (Resolved r)
  then show ?thesis by (simp add: attempt_def send_def)
next
  case (Rejected m ro)
  let ?s1 = "(createAxiosInstance s)\<lparr>sent := sent s @ [request]\<rparr>"
  show ?thesis
  proof (cases "csrf_rejected ro")
    case (Inl e)
    with Rejected show ?thesis by (simp add: attempt_def send_def)
  next
    case (Inr b)
    show ?thesis
    proof (cases b)
      case False
      with Rejected Inr show ?thesis by (simp add: attempt_def send_def)
    next
      case True
      obtain res s2 where f: "fetchCsrfToken srv env ?s1 u = (res, s2)"
        by (cases "fetchCsrfToken srv env ?s1 u")
      obtain rest where "sent (snd (fetchCsrfToken srv env ?s1 u)) = sent ?s1 @ rest"
        using fetchCsrfToken_sent by blast
      with f have s2: "sent s2 = sent s @ request # rest" by simp
      show ?thesis
        using Rejected Inr True f s2
        by (cases res) (simp_all add: attempt_def send_def)
    qed
  qed
qed


lemma prepare_bootstrap_failed:
  assumes "mutating method" and "blank (csrfToken s)" and "configured env s c"
    and "exchange_token (srv (sent s) (token_fetch_request (credentials c) u)) = None"
  shows "prepare srv env s u method timeout data params =
           (Inl (Error ''CSRF token is required for POST/PUT requests but could not be fetched''),
            s\<lparr>axiosInstance := True, config := Some c,
              sent := sent s @ [token_fetch_request (credentials c) u]\<rparr>)"
  using assms by (simp add: prepare_def fetchCsrfToken_configured)

lemma prepare_unconfigured:
  assumes "mutating method" and "blank (csrfToken s)" and "\<not> (\<exists>c. configured env s c)"
  shows "prepare srv env s u method timeout data params =
           (Inl (Error ''CSRF token is required for POST/PUT requests but could not be fetched''),
            s\<lparr>axiosInstance := True\<rparr>)"
proof -
  obtain e where "fetchCsrfToken srv env s u = (Inl e, s\<lparr>axiosInstance := True\<rparr>)"
    using assms(3) fetchCsrfToken_unconfigured by blast
  with assms(1,2) show ?thesis by (simp add: prepare_def)
qed

lemma prepare_bootstrap_token:
  assumes "mutating method" and "blank (csrfToken s)" and "configured env s c"
    and "exchange_token (srv (sent s) (token_fetch_request (credentials c) u)) = Some (token, r)"
  shows "prepare srv env s u method timeout data params =
           (Inr (configured_request c
                   ((store_cookies r s)\<lparr>csrfToken := Some token\<rparr>) u method timeout data params),
            (store_cookies r s)\<lparr>axiosInstance := True, config := Some c, csrfToken := Some token,
              sent := sent s @ [token_fetch_request (credentials c) u]\<rparr>)"
proof -
  let ?s1 = "(store_cookies r (s\<lparr>axiosInstance := True, config := Some c,
                              sent := sent s @ [token_fetch_request (credentials c) u]\<rparr>))
               \<lparr>csrfToken := Some token\<rparr>"
  have cfg: "configured env ?s1 c"
    by (simp add: configured_def store_cookies_def split: option.splits)
  have auth: "getAuthHeaders env ?s1 = (Inr (credentials c), ?s1\<lparr>config := Some c\<rparr>)"
    using cfg by (rule getAuthHeaders_configured)
  have "token \<noteq> []" using assms(4) by (rule exchange_token_nonempty)
  then show ?thesis
    using assms(1,2)
    by (simp add: prepare_def fetchCsrfToken_configured [OF assms(3)] assms(4) auth)
       (simp add: configured_request_def store_cookies_def blank_def split: option.splits)
qed






lemma csrf_rejected_403:
  "rsp_status r = 403 \<Longrightarrow> rsp_data r = Str body \<Longrightarrow> str_includes body ''CSRF'' \<Longrightarrow>
   csrf_rejected (Some r) = Inr True"
  by (simp add: csrf_rejected_def)






lemma getConfig_sample: "getConfig sample_env = Inr sample_config"
  by (simp add: getConfig_def sample_env_def sample_config_def blank_def)

lemma configured_fresh: "configured sample_env fresh_session sample_config"
  by (simp add: configured_def fresh_session_def getConfig_sample)


lemma token_fetch_sample:
  "token_fetch_request (credentials sample_config) sample_url = sample_fetch"
  by (simp add: token_fetch_request_def credentials_def sample_config_def sample_fetch_def)

lemma str_includes_rejection: "str_includes ''CSRF token validation failed'' ''CSRF''"
  by simp



text \<open>
  C5. For a POST or PUT call with no cached token: when the configuration is
  available, a GET with the header \<open>x-csrf-token: fetch\<close> is the first request sent. When
  neither its response nor its error response carries a token, the call fails with
  the error that the token could not be fetched and nothing else is sent. When one of
  them carries a token, the next request sent is the main request, which carries that
  token and the cookies of the exchange that supplied it (the cookies cached before when
  that exchange set none). Without a configuration the call fails with the same error
  and sends nothing.
\<close>

theorem bootstrap_before_main:
  "mutating method \<and> csrfToken s = None \<longrightarrow>
     req_method (token_fetch_request (credentials c) u) = ''GET'' \<and>
     req_url (token_fetch_request (credentials c) u) = u \<and>
     req_csrf_token (token_fetch_request (credentials c) u) = Some ''fetch'' \<and>
     (configured env s c \<and>
      exchange_token (srv (sent s) (token_fetch_request (credentials c) u)) = None \<longrightarrow>
        makeAdtRequest srv env s u method timeout data params =
          (Inl (Error ''CSRF token is required for POST/PUT requests but could not be fetched''),
           s\<lparr>axiosInstance := True, config := Some c,
             sent := sent s @ [token_fetch_request (credentials c) u]\<rparr>)) \<and>
     (configured env s c \<and>
      exchange_token (srv (sent s) (token_fetch_request (credentials c) u)) = Some (token, r) \<longrightarrow>
        rsp_csrf_token r = Some token \<and>
        (srv (sent s) (token_fetch_request (credentials c) u) = Resolved r \<or>
         (\<exists>m. srv (sent s) (token_fetch_request (credentials c) u) = Rejected m (Some r))) \<and>
        (\<exists>main rest.
           sent (snd (makeAdtRequest srv env s u method timeout data params)) =
             sent s @ token_fetch_request (credentials c) u # main # rest \<and>
           req_method main = method \<and> req_url main = u \<and> req_csrf_token main = Some token \<and>
           req_cookie main =
             (case rsp_set_cookie r of
                Some cs \<Rightarrow> if join ''; '' cs = [] then None else Some (join ''; '' cs)
              | None \<Rightarrow> if blank (cookies s) then None else cookies s))) \<and>
     (\<not> (\<exists>c. configured env s c) \<longrightarrow>
        makeAdtRequest srv env s u method timeout data params =
          (Inl (Error ''CSRF token is required for POST/PUT requests but could not be fetched''),
           s\<lparr>axiosInstance := True\<rparr>))"
proof (intro impI conjI)
  show "req_method (token_fetch_request (credentials c) u) = ''GET''"
    and "req_url (token_fetch_request (credentials c) u) = u"
    and "req_csrf_token (token_fetch_request (credentials c) u) = Some ''fetch''"
    by (simp_all add: token_fetch_request_def)
next
  assume h: "mutating method \<and> csrfToken s = None"
  then have b: "blank (csrfToken s)" by (simp add: blank_def)
  from h have m: "mutating method" by simp
  assume t: "configured env s c \<and>
      exchange_token (srv (sent s) (token_fetch_request (credentials c) u)) = None"
  from t have cfg: "configured env s c" by simp
  from t have ex: "exchange_token (srv (sent s) (token_fetch_request (credentials c) u)) = None"
    by simp
  show "makeAdtRequest srv env s u method timeout data params =
          (Inl (Error ''CSRF token is required for POST/PUT requests but could not be fetched''),
           s\<lparr>axiosInstance := True, config := Some c,
             sent := sent s @ [token_fetch_request (credentials c) u]\<rparr>)"
    by (simp add: makeAdtRequest_def prepare_bootstrap_failed [where srv = srv, OF m b cfg ex])
next
  assume h: "mutating method \<and> csrfToken s = None"
  then have b: "blank (csrfToken s)" by (simp add: blank_def)
  from h have m: "mutating method" by simp
  assume no: "\<not> (\<exists>c. configured env s c)"
  show "makeAdtRequest srv env s u method timeout data params =
          (Inl (Error ''CSRF token is required for POST/PUT requests but could not be fetched''),
           s\<lparr>axiosInstance := True\<rparr>)"
    by (simp add: makeAdtRequest_def prepare_unconfigured [where srv = srv, OF m b no])
next
  assume h: "mutating method \<and> csrfToken s = None"
  then have b: "blank (csrfToken s)" by (simp add: blank_def)
  assume t: "configured env s c \<and>
      exchange_token (srv (sent s) (token_fetch_request (credentials c) u)) = Some (token, r)"
  then have hdr: "rsp_csrf_token r = Some token \<and>
      (srv (sent s) (token_fetch_request (credentials c) u) = Resolved r \<or>
       (\<exists>m. srv (sent s) (token_fetch_request (credentials c) u) = Rejected m (Some r)))"
    using exchange_token_header by blast
  from hdr show "rsp_csrf_token r = Some token" by simp
  from hdr show "srv (sent s) (token_fetch_request (credentials c) u) = Resolved r \<or>
       (\<exists>m. srv (sent s) (token_fetch_request (credentials c) u) = Rejected m (Some r))" by simp
  let ?main = "configured_request c ((store_cookies r s)\<lparr>csrfToken := Some token\<rparr>) u method
                 timeout data params"
  let ?s1 = "(store_cookies r s)\<lparr>axiosInstance := True, config := Some c, csrfToken := Some token,
              sent := sent s @ [token_fetch_request (credentials c) u]\<rparr>"
  from h have m: "mutating method" by simp
  from t have cfg: "configured env s c" by simp
  from t have ex: "exchange_token (srv (sent s) (token_fetch_request (credentials c) u)) =
      Some (token, r)" by simp
  have prep: "prepare srv env s u method timeout data params = (Inr ?main, ?s1)"
    by (rule prepare_bootstrap_token [where srv = srv, OF m b cfg ex])
  obtain rest where "sent (snd (attempt srv env ?s1 u ?main)) = sent ?s1 @ ?main # rest"
    using attempt_sent by blast
  then have sent: "sent (snd (makeAdtRequest srv env s u method timeout data params)) =
      sent s @ token_fetch_request (credentials c) u # ?main # rest"
    by (simp add: makeAdtRequest_def prep)
  have "token \<noteq> []" using t exchange_token_nonempty by blast
  then have fields: "req_method ?main = method \<and> req_url ?main = u \<and>
      req_csrf_token ?main = Some token \<and>
      req_cookie ?main =
        (case rsp_set_cookie r of
           Some cs \<Rightarrow> if join ''; '' cs = [] then None else Some (join ''; '' cs)
         | None \<Rightarrow> if blank (cookies s) then None else cookies s)"
    using h by (simp add: configured_request_def store_cookies_def blank_def split: option.splits)
  from sent fields
  show "\<exists>main rest.
           sent (snd (makeAdtRequest srv env s u method timeout data params)) =
             sent s @ token_fetch_request (credentials c) u # main # rest \<and>
           req_method main = method \<and> req_url main = u \<and> req_csrf_token main = Some token \<and>
           req_cookie main =
             (case rsp_set_cookie r of
                Some cs \<Rightarrow> if join ''; '' cs = [] then None else Some (join ''; '' cs)
              | None \<Rightarrow> if blank (cookies s) then None else cookies s)"
    by blast
qed

theorem bootstrap_before_main_witness:
  "(\<exists>main rest.
      sent (snd (makeAdtRequest error_token_server sample_env fresh_session sample_url ''POST'' 30000
                   Undefined Undefined)) = sample_fetch # main # rest \<and>
      req_method main = ''POST'' \<and> req_url main = sample_url \<and>
      req_csrf_token main = Some ''TOKEN1'' \<and> req_cookie main = Some ''SAP_SESSIONID=xyz'') \<and>
   makeAdtRequest tokenless_server sample_env fresh_session sample_url ''POST'' 30000 Undefined Undefined =
     (Inl (Error ''CSRF token is required for POST/PUT requests but could not be fetched''),
      \<lparr>axiosInstance = True, config = Some sample_config, csrfToken = None, cookies = None,
       sent = [sample_fetch]\<rparr>)"
proof -
  have pre: "mutating ''POST'' \<and> csrfToken fresh_session = None"
    by (simp add: mutating_def fresh_session_def)
  have got: "exchange_token (error_token_server (sent fresh_session) sample_fetch) =
      Some (''TOKEN1'', error_token_response)"
    by (simp add: error_token_server_def fresh_session_def exchange_token_def
        error_token_response_def blank_def)
  have none: "exchange_token (tokenless_server (sent fresh_session) sample_fetch) = None"
    by (simp add: tokenless_server_def exchange_token_def ok_response_def blank_def)
  have cookie: "rsp_set_cookie error_token_response = Some [''SAP_SESSIONID=xyz'']"
    by (simp add: error_token_response_def)
  have one: "\<exists>main rest.
      sent (snd (makeAdtRequest error_token_server sample_env fresh_session sample_url ''POST'' 30000
                   Undefined Undefined)) = sample_fetch # main # rest \<and>
      req_method main = ''POST'' \<and> req_url main = sample_url \<and>
      req_csrf_token main = Some ''TOKEN1'' \<and> req_cookie main = Some ''SAP_SESSIONID=xyz''"
    using bootstrap_before_main [of "''POST''" fresh_session sample_config sample_url
        sample_env error_token_server 30000 Undefined Undefined "''TOKEN1''" error_token_response]
      pre configured_fresh got
    by (simp add: token_fetch_sample cookie) (simp add: fresh_session_def)
  have two: "makeAdtRequest tokenless_server sample_env fresh_session sample_url ''POST'' 30000
        Undefined Undefined =
     (Inl (Error ''CSRF token is required for POST/PUT requests but could not be fetched''),
      fresh_session\<lparr>axiosInstance := True, config := Some sample_config,
        sent := sent fresh_session @ [sample_fetch]\<rparr>)"
    using bootstrap_before_main [of "''POST''" fresh_session sample_config sample_url
        sample_env tokenless_server 30000 Undefined Undefined "[]" ok_response]
      pre configured_fresh none
    by (simp add: token_fetch_sample)
  show ?thesis
    using one two by (simp add: fresh_session_def)
qed

section \<open>The cached token and cookie\<close>







lemma kept_fields:
  "config s' = config s \<Longrightarrow> cookies s' = cookies s \<Longrightarrow> kept s s'"
  by (simp add: kept_def)

















section \<open>The base URL\<close>

text \<open>
  C10. With the configuration available, when the configured URL parses,
  \<open>getBaseUrl\<close> returns the origin of the parsed URL and nothing of its path, query or
  fragment; when the URL constructor throws, \<open>getBaseUrl\<close> throws an error whose message
  is \<open>Invalid URL in configuration: \<close> followed by the constructor's message.
\<close>

theorem getBaseUrl_origin:
  "configured env s c \<longrightarrow>
     (parseURL (sap_url c) = Inr urlObj \<longrightarrow>
        getBaseUrl parseURL env s = (Inr (origin urlObj), s\<lparr>config := Some c\<rparr>)) \<and>
     (parseURL (sap_url c) = Inl e \<longrightarrow>
        getBaseUrl parseURL env s =
          (Inl (Error (''Invalid URL in configuration: '' @ error_message e)),
           s\<lparr>config := Some c\<rparr>))"
  by (simp add: getBaseUrl_def load_config_configured)

theorem getBaseUrl_origin_witness:
  "getBaseUrl sample_parseURL sample_env fresh_session =
     (Inr ''https://sap.example.com:8000'', fresh_session\<lparr>config := Some sample_config\<rparr>) \<and>
   getBaseUrl sample_parseURL broken_env fresh_session =
     (Inl (Error ''Invalid URL in configuration: Invalid URL''),
      fresh_session\<lparr>config := Some (sample_config\<lparr>sap_url := ''sap.example.com''\<rparr>)\<rparr>)"
proof -
  have parsed: "sample_parseURL (sap_url sample_config) =
      Inr \<lparr>origin = ''https://sap.example.com:8000'', pathname = ''/sap/bc'',
           search = ''?x=1'', hash = ''#top''\<rparr>"
    by (simp add: sample_parseURL_def sample_config_def)
  have "getConfig broken_env = Inr (sample_config\<lparr>sap_url := ''sap.example.com''\<rparr>)"
    by (simp add: getConfig_def broken_env_def sample_env_def sample_config_def blank_def)
  then have broken: "configured broken_env fresh_session (sample_config\<lparr>sap_url := ''sap.example.com''\<rparr>)"
    by (simp add: configured_def fresh_session_def)
  have thrown: "sample_parseURL (sap_url (sample_config\<lparr>sap_url := ''sap.example.com''\<rparr>)) =
      Inl (TypeError ''Invalid URL'')"
    by (simp add: sample_parseURL_def)
  show ?thesis
    using getBaseUrl_origin [where env = sample_env and s = fresh_session and c = sample_config
        and parseURL = sample_parseURL
        and urlObj = "\<lparr>origin = ''https://sap.example.com:8000'', pathname = ''/sap/bc'',
                        search = ''?x=1'', hash = ''#top''\<rparr>"]
      getBaseUrl_origin [where env = broken_env and s = fresh_session
        and c = "sample_config\<lparr>sap_url := ''sap.example.com''\<rparr>"
        and parseURL = sample_parseURL and e = "TypeError ''Invalid URL''"]
      configured_fresh parsed broken thrown
    by simp
qed

end
